theory Spec2Isabelle
  imports Complex_Main
begin

section \<open>Data model (listings/models.py)\<close>

text \<open>
  Users and rows are named by their primary keys. A calendar date is its proleptic
  Gregorian ordinal, so that \<open>(check_out - check_in).days\<close> is the difference of two
  integers. A \<open>Decimal\<close> is the rational number it denotes: \<open>Decimal * int\<close> is
  exact as long as the product has at most 28 significant digits, which holds for every
  price of at most ten digits and every span of Python dates.
\<close>

type_synonym user_id = nat
type_synonym pk = nat
type_synonym date = int
type_synonym decimal = rat

text \<open>
  Of \<open>Listing\<close> the columns are kept that the booking code reads or whose rendering
  can fail; the descriptive columns (title, address, amenities, ...) are read by none of
  the functions below and are rendered as they are. \<open>latitude\<close> and \<open>longitude\<close>
  are the two columns declared with \<open>null=True\<close>.
\<close>

record Listing =
  price_per_night :: decimal
  max_guests :: nat
  latitude :: "decimal option"
  longitude :: "decimal option"
  is_available :: bool
  host :: user_id

record Review =
  review_listing :: pk
  rating :: nat

text \<open>
  A \<open>Booking\<close> instance in memory. The attributes that \<open>Booking.save\<close> tests for
  presence are optional: \<open>None\<close> is Python's \<open>None\<close> (for \<open>listing\<close>: no
  foreign key assigned). \<open>total_price\<close> has no default, so a fresh instance holds
  \<open>None\<close> there. \<open>status\<close> is the stored string.
\<close>

record Booking =
  listing :: "pk option"
  guest :: user_id
  check_in :: "date option"
  check_out :: "date option"
  guests_count :: int
  total_price :: "decimal option"
  status :: string
  special_requests :: string

text \<open>
  The persistent store: the three tables, and the sequence that numbers new bookings.
\<close>

record database =
  listings :: "pk \<rightharpoonup> Listing"
  bookings :: "pk \<rightharpoonup> Booking"
  reviews :: "Review list"
  next_booking_pk :: pk

text \<open>
  Every way a request can fail. \<open>HttpResponse code detail\<close> is an error response that a
  view builds itself (\<open>Response({"detail": ...}, status=...)\<close>); the others are
  exceptions.
\<close>

datatype error =
    ValidationError string
  | NotAuthenticated
  | Http404
  | PermissionDenied
  | HttpResponse nat string
  | IntegrityError
  | RelatedObjectDoesNotExist
  | DoesNotExist
  | ZeroDivisionError
  | OverflowError
  | InvalidOperation

section \<open>Booking.save\<close>

text \<open>
  The body of \<open>Booking.save\<close> before \<open>super().save()\<close>:
  \<^verbatim>\<open>
  if self.check_in and self.check_out and self.listing:
      nights = (self.check_out - self.check_in).days
      if nights > 0:
          self.total_price = self.listing.price_per_night * nights
  \<close>
  A date is always truthy, so the first two tests are tests for \<open>None\<close>. Reading
  \<open>self.listing\<close> follows the foreign key: it raises \<open>RelatedObjectDoesNotExist\<close>
  when no key is assigned and \<open>Listing.DoesNotExist\<close> when the key names no row.
\<close>

definition compute_total_price :: "database \<Rightarrow> Booking \<Rightarrow> error + Booking" where
  "compute_total_price db b =
     (case check_in b of
        None \<Rightarrow> Inr b
      | Some ci \<Rightarrow>
          (case check_out b of
             None \<Rightarrow> Inr b
           | Some co \<Rightarrow>
               (case listing b of
                  None \<Rightarrow> Inl RelatedObjectDoesNotExist
                | Some lid \<Rightarrow>
                    (case listings db lid of
                       None \<Rightarrow> Inl DoesNotExist
                     | Some l \<Rightarrow>
                         (let nights = co - ci in
                          if nights > 0
                          then Inr (b\<lparr>total_price :=
                                      Some (price_per_night l * of_int nights)\<rparr>)
                          else Inr b)))))"

text \<open>
  \<open>super().save()\<close>: the row is written under the key the instance has, or under the
  next key of the sequence when it has none. Every column of \<open>Booking\<close> is declared
  without \<open>null=True\<close> and \<open>listing\<close> is a foreign key, so the store refuses a row
  with an absent value or a dangling listing. The digit limits of the decimal columns
  depend on the storage engine and are not modelled.
\<close>

definition violates_constraints :: "database \<Rightarrow> Booking \<Rightarrow> bool" where
  "violates_constraints db b =
     (Option.bind (listing b) (listings db) = None \<or> check_in b = None
      \<or> check_out b = None \<or> total_price b = None)"

definition Model_save :: "pk option \<Rightarrow> Booking \<Rightarrow> database \<Rightarrow> error + (pk \<times> database)" where
  "Model_save key b db =
     (if violates_constraints db b
      then Inl IntegrityError
      else (case key of
              Some k \<Rightarrow> Inr (k, db\<lparr>bookings := (bookings db)(k \<mapsto> b)\<rparr>)
            | None \<Rightarrow>
                Inr (next_booking_pk db,
                     db\<lparr>bookings := (bookings db)(next_booking_pk db \<mapsto> b),
                        next_booking_pk := Suc (next_booking_pk db)\<rparr>)))"

text \<open>
  \<open>Booking.save\<close>: the instance as it is after the call, its key, and the store.
\<close>

definition Booking_save ::
  "pk option \<Rightarrow> Booking \<Rightarrow> database \<Rightarrow> error + (pk \<times> Booking \<times> database)" where
  "Booking_save key b db =
     (case compute_total_price db b of
        Inl e \<Rightarrow> Inl e
      | Inr b' \<Rightarrow>
          (case Model_save key b' db of
             Inl e \<Rightarrow> Inl e
           | Inr (k, db') \<Rightarrow> Inr (k, b', db')))"

section \<open>Listing.average_rating (listings/models.py)\<close>

text \<open>
  The property returns the integer \<open>0\<close> or the result of \<open>sum(...) / len(...)\<close>.
  The ratings are integers, and \<open>/\<close> on two Python integers is true division: its
  result is a float, the IEEE 754 binary64 number nearest to the quotient, with ties going
  to the even mantissa; a quotient that rounds beyond the largest float raises
  \<open>OverflowError\<close>. A float is modelled by the rational number it denotes.
\<close>

datatype number = PyInt int | PyFloat rat

text \<open>\<open>int.bit_length()\<close>, and the powers of two with an integer exponent.\<close>

fun bit_length :: "nat \<Rightarrow> nat" where
  "bit_length 0 = 0"
| "bit_length (Suc n) = Suc (bit_length (Suc n div 2))"

definition pow2 :: "int \<Rightarrow> rat" where
  "pow2 k = (if 0 \<le> k then 2 ^ nat k else 1 / 2 ^ nat (- k))"

text \<open>
  The integer nearest to \<open>num / den\<close> for a positive \<open>den\<close>, the even one of the two
  when \<open>num / den\<close> lies half way between them.
\<close>

definition round_half_even :: "int \<Rightarrow> int \<Rightarrow> int" where
  "round_half_even num den =
     (let n = num div den; r = num mod den in
      if 2 * r < den then n
      else if den < 2 * r then n + 1
      else if even n then n else n + 1)"

text \<open>
  The exponent \<open>e\<close> of a positive quotient, \<open>2 ^ e \<le> a / b < 2 ^ (e + 1)\<close>: the
  difference of the bit lengths, or one less.
\<close>

definition quotient_exponent :: "nat \<Rightarrow> nat \<Rightarrow> int" where
  "quotient_exponent a b =
     (let d = int (bit_length a) - int (bit_length b)
      in if pow2 d * of_nat b \<le> of_nat a then d else d - 1)"

text \<open>The quotient scaled by \<open>2 ^ s\<close> and rounded to an integer.\<close>

definition mantissa :: "nat \<Rightarrow> nat \<Rightarrow> int \<Rightarrow> int" where
  "mantissa a b s =
     (if 0 \<le> s then round_half_even (int a * 2 ^ nat s) (int b)
      else round_half_even (int a) (int b * 2 ^ nat (- s)))"

text \<open>
  True division of two natural numbers. A binary64 number has a mantissa of 53 bits and an
  exponent of at least \<open>-1022\<close> (below that the spacing of the floats stays that of the
  exponent \<open>-1022\<close>), and the largest one is below \<open>2 ^ 1024\<close>.
\<close>

definition int_true_divide :: "nat \<Rightarrow> nat \<Rightarrow> error + rat" where
  "int_true_divide a b =
     (if b = 0 then Inl ZeroDivisionError
      else if a = 0 then Inr 0
      else
        (let s = 52 - max (quotient_exponent a b) (- 1022);
             x = of_int (mantissa a b s) * pow2 (- s)
         in if pow2 1024 \<le> x then Inl OverflowError else Inr x))"

text \<open>\<open>self.reviews.all()\<close>: the reviews whose foreign key names the listing.\<close>

definition listing_reviews :: "database \<Rightarrow> pk \<Rightarrow> Review list" where
  "listing_reviews db self = filter (\<lambda>review. review_listing review = self) (reviews db)"

text \<open>
  \<^verbatim>\<open>
  reviews = self.reviews.all()
  if reviews:
      return sum(review.rating for review in reviews) / len(reviews)
  return 0
  \<close>
\<close>

definition Listing_average_rating :: "database \<Rightarrow> pk \<Rightarrow> error + number" where
  "Listing_average_rating db self =
     (let rs = listing_reviews db self in
      if rs \<noteq> []
      then (case int_true_divide (sum_list (map rating rs)) (length rs) of
              Inl e \<Rightarrow> Inl e
            | Inr x \<Rightarrow> Inr (PyFloat x))
      else Inr (PyInt 0))"

text \<open>The arithmetic mean of the specification, as a rational number.\<close>

definition arithmetic_mean :: "nat list \<Rightarrow> rat" where
  "arithmetic_mean xs = of_nat (sum_list xs) / of_nat (length xs)"

text \<open>
  The finite IEEE 754 binary64 numbers: a mantissa of at most 53 bits, with either sign,
  times a power of two whose exponent lies between \<open>-1074\<close> and \<open>971\<close>. The
  smallest positive one is \<open>2 ^ -1074\<close>, the largest \<open>(2 ^ 53 - 1) * 2 ^ 971\<close>.
\<close>

definition is_binary64 :: "rat \<Rightarrow> bool" where
  "is_binary64 x =
     (\<exists>m e. x = of_int m * pow2 e \<and> \<bar>m\<bar> < 2 ^ 53 \<and> - 1074 \<le> e \<and> e \<le> 971)"

section \<open>Serializers (listings/serializers.py)\<close>

text \<open>
  The payload of a create request after the fields have been parsed, and the attribute
  dictionary a serializer validates: there \<open>data['listing']\<close> is the \<open>Listing\<close>
  instance (its key and its columns) that the submitted key resolved to.
\<close>

record booking_payload =
  payload_listing :: pk
  payload_check_in :: date
  payload_check_out :: date
  payload_guests_count :: int
  payload_special_requests :: string

record booking_attrs =
  attrs_listing :: "pk \<times> Listing"
  attrs_check_in :: date
  attrs_check_out :: date
  attrs_guests_count :: int
  attrs_special_requests :: string

text \<open>Python's \<open>str(n)\<close> for a natural number, used by the f-string of \<open>validate\<close>.\<close>

fun string_of_nat :: "nat \<Rightarrow> string" where
  "string_of_nat n =
     (if n < 10 then [''0123456789'' ! n]
      else string_of_nat (n div 10) @ [''0123456789'' ! (n mod 10)])"

text \<open>
  \<open>BookingSerializer.validate\<close>, check by check in the order of the source.
\<close>

definition BookingSerializer_validate :: "booking_attrs \<Rightarrow> error + booking_attrs" where
  "BookingSerializer_validate data =
     (if attrs_check_in data \<ge> attrs_check_out data
      then Inl (ValidationError ''Check-out date must be after check-in date'')
      else if attrs_guests_count data > int (max_guests (snd (attrs_listing data)))
      then Inl (ValidationError (''Maximum guests allowed is ''
                  @ string_of_nat (max_guests (snd (attrs_listing data)))))
      else if \<not> is_available (snd (attrs_listing data))
      then Inl (ValidationError ''This listing is not available'')
      else Inr data)"

text \<open>
  \<open>BookingCreateSerializer\<close> declares its model and its fields and nothing else, so
  its \<open>validate\<close> is the one it inherits, which returns the attributes as they are.
\<close>

datatype serializer_class = BookingSerializer | BookingCreateSerializer

definition serializer_validate :: "serializer_class \<Rightarrow> booking_attrs \<Rightarrow> error + booking_attrs" where
  "serializer_validate cls data =
     (case cls of
        BookingSerializer \<Rightarrow> BookingSerializer_validate data
      | BookingCreateSerializer \<Rightarrow> Inr data)"

text \<open>
  The field validation a model serializer derives from the model: the related field
  \<open>listing\<close> must name an existing listing, and \<open>guests_count\<close>, a
  \<open>PositiveIntegerField\<close>, must not be negative. The messages are the framework's,
  the first without the key it quotes.
\<close>

definition to_internal_value :: "database \<Rightarrow> booking_payload \<Rightarrow> error + booking_attrs" where
  "to_internal_value db p =
     (case listings db (payload_listing p) of
        None \<Rightarrow> Inl (ValidationError ''Invalid pk - object does not exist.'')
      | Some l \<Rightarrow>
          if payload_guests_count p < 0
          then Inl (ValidationError ''Ensure this value is greater than or equal to 0.'')
          else Inr \<lparr>attrs_listing = (payload_listing p, l),
                    attrs_check_in = payload_check_in p,
                    attrs_check_out = payload_check_out p,
                    attrs_guests_count = payload_guests_count p,
                    attrs_special_requests = payload_special_requests p\<rparr>)"

text \<open>
  What a serializer answers for an instance. A field whose attribute is \<open>None\<close> is
  answered as \<open>None\<close>, and \<open>to_representation\<close> of the field is not called.
\<close>

definition field_to_representation ::
  "('a \<Rightarrow> error + 'b) \<Rightarrow> 'a option \<Rightarrow> error + 'b option" where
  "field_to_representation to_representation attribute =
     (case attribute of
        None \<Rightarrow> Inr None
      | Some v \<Rightarrow>
          (case to_representation v of Inl e \<Rightarrow> Inl e | Inr r \<Rightarrow> Inr (Some r)))"

text \<open>
  \<open>to_representation\<close> of the serializer field that a model serializer builds for a
  \<open>DecimalField(max_digits, decimal_places)\<close> column: the value is quantized to the
  decimal places of the field, half going to the even digit, in a context whose precision
  is \<open>max_digits\<close>, and \<open>decimal.InvalidOperation\<close> is raised when the quantized
  value has more digits than that.
\<close>

definition decimal_to_representation :: "nat \<Rightarrow> nat \<Rightarrow> decimal \<Rightarrow> error + decimal" where
  "decimal_to_representation max_digits decimal_places v =
     (let (num, den) = quotient_of (v * 10 ^ decimal_places);
          coefficient = round_half_even num den
      in if 10 ^ max_digits \<le> \<bar>coefficient\<bar> then Inl InvalidOperation
         else Inr (of_int coefficient / 10 ^ decimal_places))"

record listing_representation =
  repr_price_per_night :: decimal
  repr_max_guests :: nat
  repr_latitude :: "decimal option"
  repr_longitude :: "decimal option"
  repr_is_available :: bool
  repr_host :: user_id
  repr_average_rating :: number
  repr_reviews :: "nat list"

record booking_representation =
  repr_listing :: "listing_representation option"
  repr_guest :: user_id
  repr_check_in :: "date option"
  repr_check_out :: "date option"
  repr_guests_count :: int
  repr_total_price :: "decimal option"
  repr_status :: string
  repr_special_requests :: string

text \<open>
  \<open>ListingSerializer(listing).data\<close>, field by field in the order of \<open>Meta.fields\<close>:
  the two kinds of field that can raise are the decimal columns and the read-only field
  \<open>average_rating\<close>, which evaluates the property. A review is answered with its
  rating.
\<close>

definition ListingSerializer_data ::
  "database \<Rightarrow> pk \<Rightarrow> Listing \<Rightarrow> error + listing_representation" where
  "ListingSerializer_data db k l =
     (case decimal_to_representation 10 2 (price_per_night l) of
        Inl e \<Rightarrow> Inl e
      | Inr price \<Rightarrow>
          (case field_to_representation (decimal_to_representation 9 6) (latitude l) of
             Inl e \<Rightarrow> Inl e
           | Inr lat \<Rightarrow>
               (case field_to_representation (decimal_to_representation 9 6) (longitude l) of
                  Inl e \<Rightarrow> Inl e
                | Inr long \<Rightarrow>
                    (case Listing_average_rating db k of
                       Inl e \<Rightarrow> Inl e
                     | Inr average \<Rightarrow>
                         Inr \<lparr>repr_price_per_night = price,
                              repr_max_guests = max_guests l,
                              repr_latitude = lat,
                              repr_longitude = long,
                              repr_is_available = is_available l,
                              repr_host = host l,
                              repr_average_rating = average,
                              repr_reviews = map rating (listing_reviews db k)\<rparr>))))"

text \<open>
  \<open>BookingSerializer(booking).data\<close>: the nested listing first, \<open>total_price\<close>
  after it. The nested field is read-only: it is left out when the booking has no
  listing key, and reading a key that names no row raises.
\<close>

definition BookingSerializer_data :: "database \<Rightarrow> Booking \<Rightarrow> error + booking_representation" where
  "BookingSerializer_data db b =
     (case (case listing b of
              None \<Rightarrow> Inr None
            | Some lid \<Rightarrow>
                (case listings db lid of
                   None \<Rightarrow> Inl DoesNotExist
                 | Some l \<Rightarrow>
                     (case ListingSerializer_data db lid l of
                        Inl e \<Rightarrow> Inl e
                      | Inr r \<Rightarrow> Inr (Some r)))) of
        Inl e \<Rightarrow> Inl e
      | Inr listing_data \<Rightarrow>
          (case field_to_representation (decimal_to_representation 10 2) (total_price b) of
             Inl e \<Rightarrow> Inl e
           | Inr price \<Rightarrow>
               Inr \<lparr>repr_listing = listing_data,
                    repr_guest = guest b,
                    repr_check_in = check_in b,
                    repr_check_out = check_out b,
                    repr_guests_count = guests_count b,
                    repr_total_price = price,
                    repr_status = status b,
                    repr_special_requests = special_requests b\<rparr>))"

section \<open>Views (listings/views.py)\<close>

text \<open>
  What the views read of a request: the user (\<open>None\<close> is the anonymous user), the
  query parameters of the URL, and the date \<open>timezone.now().date()\<close> gives while the
  request is served.
\<close>

record request =
  user :: "user_id option"
  query_params :: "string \<rightharpoonup> string"
  today :: date

text \<open>
  \<open>str.lower\<close>. A character is a byte here; the letters \<open>A\<close> to \<open>Z\<close> are
  lowered and every other character is kept, which decides the comparison with
  \<open>'true'\<close> as Python does: no character outside \<open>A\<close> to \<open>Z\<close> lowers to an
  ASCII letter of that word.
\<close>

definition lower_char :: "char \<Rightarrow> char" where
  "lower_char c =
     (case map_of (zip ''ABCDEFGHIJKLMNOPQRSTUVWXYZ'' ''abcdefghijklmnopqrstuvwxyz'') c of
        Some d \<Rightarrow> d
      | None \<Rightarrow> c)"

definition str_lower :: "string \<Rightarrow> string" where
  "str_lower s = map lower_char s"

text \<open>A queryset is the table restricted to its rows; \<open>filter\<close> restricts it further.\<close>

definition qs_filter :: "('r \<Rightarrow> bool) \<Rightarrow> (pk \<rightharpoonup> 'r) \<Rightarrow> (pk \<rightharpoonup> 'r)" where
  "qs_filter P qs = (\<lambda>k. case qs k of None \<Rightarrow> None | Some r \<Rightarrow> if P r then Some r else None)"

text \<open>
  \<open>BookingViewSet.get_queryset\<close>. The condition \<open>Q(guest=user) | Q(listing__host=user)\<close>
  joins each booking with its listing (an inner join, the foreign key not being
  nullable), so a booking without a listing row is in no queryset. A string is truthy
  when it is not empty. The permission check of the view set runs before any handler, so
  the anonymous user never gets this far; for it the condition selects no row.
\<close>

definition BookingViewSet_get_queryset :: "request \<Rightarrow> database \<Rightarrow> (pk \<rightharpoonup> Booking)" where
  "BookingViewSet_get_queryset req db =
     (let queryset =
            qs_filter
              (\<lambda>b. case Option.bind (listing b) (listings db) of
                      None \<Rightarrow> False
                    | Some l \<Rightarrow> Some (guest b) = user req \<or> Some (host l) = user req)
              (bookings db);
          status_filter = query_params req ''status'';
          queryset =
            (case status_filter of
               None \<Rightarrow> queryset
             | Some s \<Rightarrow> if s \<noteq> [] then qs_filter (\<lambda>b. status b = s) queryset else queryset);
          upcoming = query_params req ''upcoming'';
          queryset =
            (case upcoming of
               None \<Rightarrow> queryset
             | Some u \<Rightarrow>
                 if u \<noteq> [] \<and> str_lower u = ''true''
                 then qs_filter
                        (\<lambda>b. case check_in b of None \<Rightarrow> False | Some ci \<Rightarrow> today req \<le> ci)
                        queryset
                 else queryset)
      in queryset)"

text \<open>\<open>BookingViewSet.get_serializer_class\<close>, by the name of the action.\<close>

definition BookingViewSet_get_serializer_class :: "string \<Rightarrow> serializer_class" where
  "BookingViewSet_get_serializer_class action =
     (if action \<in> set [''create'', ''update'', ''partial_update'']
      then BookingCreateSerializer
      else BookingSerializer)"

text \<open>
  The permission classes of \<open>BookingViewSet\<close> are \<open>IsAuthenticated\<close> and
  \<open>IsGuestOrHost\<close>. Before a handler runs, every class is asked \<open>has_permission\<close>:
  \<open>IsAuthenticated\<close> refuses the anonymous user, \<open>IsGuestOrHost\<close> does not override
  the method and grants.
\<close>

definition check_permissions :: "request \<Rightarrow> error + user_id" where
  "check_permissions req = (case user req of None \<Rightarrow> Inl NotAuthenticated | Some u \<Rightarrow> Inr u)"

text \<open>\<open>IsGuestOrHost.has_object_permission\<close>.\<close>

definition IsGuestOrHost_has_object_permission :: "request \<Rightarrow> database \<Rightarrow> Booking \<Rightarrow> bool" where
  "IsGuestOrHost_has_object_permission req db obj =
     (if Some (guest obj) = user req then True
      else (case Option.bind (listing obj) (listings db) of
              None \<Rightarrow> False
            | Some l \<Rightarrow> if Some (host l) = user req then True else False))"

text \<open>
  \<open>self.get_object()\<close> of the framework's generic view: the row with the requested
  key is looked up in \<open>get_queryset()\<close> (a missing row is \<open>Http404\<close>), then the
  object permissions are checked.
\<close>

definition get_object :: "request \<Rightarrow> pk \<Rightarrow> database \<Rightarrow> error + Booking" where
  "get_object req k db =
     (case BookingViewSet_get_queryset req db k of
        None \<Rightarrow> Inl Http404
      | Some obj \<Rightarrow>
          if IsGuestOrHost_has_object_permission req db obj then Inr obj
          else Inl PermissionDenied)"

text \<open>
  The handlers return what the client is answered (an error, or the rendered booking)
  and the store as the request leaves it. For the actions \<open>cancel\<close> and \<open>confirm\<close>
  \<open>get_serializer\<close> is \<open>BookingSerializer\<close>. The answer is rendered after
  \<open>booking.save()\<close>: when rendering raises, the request ends in that error and the
  row stays written.
\<close>

definition BookingViewSet_cancel ::
  "request \<Rightarrow> pk \<Rightarrow> database \<Rightarrow> (error + booking_representation) \<times> database" where
  "BookingViewSet_cancel req k db =
     (case check_permissions req of
        Inl e \<Rightarrow> (Inl e, db)
      | Inr _ \<Rightarrow>
          (case get_object req k db of
             Inl e \<Rightarrow> (Inl e, db)
           | Inr booking \<Rightarrow>
               if Some (guest booking) \<noteq> user req
               then (Inl (HttpResponse 403 ''You can only cancel your own bookings.''), db)
               else if status booking = ''cancelled''
               then (Inl (HttpResponse 400 ''Booking is already cancelled.''), db)
               else (case Booking_save (Some k) (booking\<lparr>status := ''cancelled''\<rparr>) db of
                       Inl e \<Rightarrow> (Inl e, db)
                     | Inr (_, booking', db') \<Rightarrow>
                         (case BookingSerializer_data db' booking' of
                            Inl e \<Rightarrow> (Inl e, db')
                          | Inr data \<Rightarrow> (Inr data, db')))))"

definition BookingViewSet_confirm ::
  "request \<Rightarrow> pk \<Rightarrow> database \<Rightarrow> (error + booking_representation) \<times> database" where
  "BookingViewSet_confirm req k db =
     (case check_permissions req of
        Inl e \<Rightarrow> (Inl e, db)
      | Inr _ \<Rightarrow>
          (case get_object req k db of
             Inl e \<Rightarrow> (Inl e, db)
           | Inr booking \<Rightarrow>
               if map_option host (Option.bind (listing booking) (listings db)) \<noteq> user req
               then (Inl (HttpResponse 403 ''Only the host can confirm bookings.''), db)
               else if status booking \<noteq> ''pending''
               then (Inl (HttpResponse 400 ''Only pending bookings can be confirmed.''), db)
               else (case Booking_save (Some k) (booking\<lparr>status := ''confirmed''\<rparr>) db of
                       Inl e \<Rightarrow> (Inl e, db)
                     | Inr (_, booking', db') \<Rightarrow>
                         (case BookingSerializer_data db' booking' of
                            Inl e \<Rightarrow> (Inl e, db')
                          | Inr data \<Rightarrow> (Inr data, db')))))"

text \<open>
  Creating a booking: the serializer class for the action \<open>create\<close> validates the
  payload, and \<open>perform_create\<close> saves a new instance with the requesting user as
  guest. The new instance has the default status and no price yet. The answer is
  rendered by \<open>BookingCreateSerializer\<close>, whose five fields have no decimal among
  them and render without error; the handler returns the key and the instance.
\<close>

definition BookingViewSet_perform_create ::
  "user_id \<Rightarrow> booking_attrs \<Rightarrow> database \<Rightarrow> error + (pk \<times> Booking \<times> database)" where
  "BookingViewSet_perform_create u data db =
     Booking_save None
       \<lparr>listing = Some (fst (attrs_listing data)),
        guest = u,
        check_in = Some (attrs_check_in data),
        check_out = Some (attrs_check_out data),
        guests_count = attrs_guests_count data,
        total_price = None,
        status = ''pending'',
        special_requests = attrs_special_requests data\<rparr>
       db"

definition BookingViewSet_create ::
  "request \<Rightarrow> booking_payload \<Rightarrow> database \<Rightarrow> (error + pk \<times> Booking) \<times> database" where
  "BookingViewSet_create req p db =
     (case check_permissions req of
        Inl e \<Rightarrow> (Inl e, db)
      | Inr u \<Rightarrow>
          (case to_internal_value db p of
             Inl e \<Rightarrow> (Inl e, db)
           | Inr attrs \<Rightarrow>
               (case serializer_validate (BookingViewSet_get_serializer_class ''create'') attrs of
                  Inl e \<Rightarrow> (Inl e, db)
                | Inr data \<Rightarrow>
                    (case BookingViewSet_perform_create u data db of
                       Inl e \<Rightarrow> (Inl e, db)
                     | Inr (k, booking, db') \<Rightarrow> (Inr (k, booking), db')))))"

text \<open>
  The invariant of the store: every row of the booking table satisfies the constraints
  of the table.
\<close>

definition consistent :: "database \<Rightarrow> bool" where
  "consistent db = (\<forall>k b. bookings db k = Some b \<longrightarrow> \<not> violates_constraints db b)"

text \<open>
  The rows that the two optional filters at the end of \<open>get_queryset\<close> keep, as one
  predicate; \<open>get_queryset_Some\<close> below proves that the chained \<open>filter\<close> calls
  select exactly these rows.
\<close>

definition passes_query_filters :: "request \<Rightarrow> Booking \<Rightarrow> bool" where
  "passes_query_filters req b =
     ((case query_params req ''status'' of
         None \<Rightarrow> True
       | Some s \<Rightarrow> if s \<noteq> [] then status b = s else True)
      \<and> (case query_params req ''upcoming'' of
            None \<Rightarrow> True
          | Some u \<Rightarrow>
              if u \<noteq> [] \<and> str_lower u = ''true''
              then (case check_in b of None \<Rightarrow> False | Some ci \<Rightarrow> today req \<le> ci)
              else True))"

section \<open>Example data\<close>

text \<open>
  The example of the specification: a listing at 100.00 a night for four guests, owned by
  user 1, and a pending booking of it by user 2 from 2024-06-01 to 2024-06-04 (the
  ordinals 739038 and 739041), in a store that holds nothing else. Requests are made on
  2024-04-24 (ordinal 739000).
\<close>

definition example_listing :: Listing where
  "example_listing =
     \<lparr>price_per_night = 100, max_guests = 4, latitude = None, longitude = None,
      is_available = True, host = 1\<rparr>"

definition example_booking :: Booking where
  "example_booking =
     \<lparr>listing = Some 1, guest = 2, check_in = Some 739038, check_out = Some 739041,
      guests_count = 2, total_price = Some 300, status = ''pending'',
      special_requests = []\<rparr>"

definition example_db :: database where
  "example_db =
     \<lparr>listings = [1 \<mapsto> example_listing], bookings = [1 \<mapsto> example_booking],
      reviews = [], next_booking_pk = 2\<rparr>"

text \<open>The example store with the booking in another status, and with the listing repriced.\<close>

definition example_db_status :: "string \<Rightarrow> database" where
  "example_db_status s = example_db\<lparr>bookings := [1 \<mapsto> example_booking\<lparr>status := s\<rparr>]\<rparr>"

definition example_db_repriced :: "decimal \<Rightarrow> database" where
  "example_db_repriced p =
     example_db\<lparr>listings := [1 \<mapsto> example_listing\<lparr>price_per_night := p\<rparr>]\<rparr>"

text \<open>
  Payloads for the example listing: the booking of the specification's example, from
  2024-06-01 to 2024-06-04 for \<open>n\<close> guests, a booking that leaves on the day it
  arrives, and one that leaves three days before it arrives.
\<close>

definition example_payload :: "int \<Rightarrow> booking_payload" where
  "example_payload n =
     \<lparr>payload_listing = 1, payload_check_in = 739038, payload_check_out = 739041,
      payload_guests_count = n, payload_special_requests = []\<rparr>"

definition same_day_payload :: booking_payload where
  "same_day_payload =
     \<lparr>payload_listing = 1, payload_check_in = 739038, payload_check_out = 739038,
      payload_guests_count = 2, payload_special_requests = []\<rparr>"

definition reversed_payload :: booking_payload where
  "reversed_payload =
     \<lparr>payload_listing = 1, payload_check_in = 739041, payload_check_out = 739038,
      payload_guests_count = 2, payload_special_requests = []\<rparr>"

definition example_db_unavailable :: database where
  "example_db_unavailable =
     example_db\<lparr>listings := [1 \<mapsto> example_listing\<lparr>is_available := False\<rparr>]\<rparr>"

text \<open>The example store with reviews of the example listing that give the ratings \<open>ns\<close>.\<close>

definition example_db_rated :: "nat list \<Rightarrow> database" where
  "example_db_rated ns =
     example_db\<lparr>reviews := map (\<lambda>n. \<lparr>review_listing = 1, rating = n\<rparr>) ns\<rparr>"

definition request_of :: "user_id \<Rightarrow> (string \<rightharpoonup> string) \<Rightarrow> request" where
  "request_of u params = \<lparr>user = Some u, query_params = params, today = 739000\<rparr>"

section \<open>Price derivation on save\<close>

lemma compute_total_price_positive:
  assumes "check_in b = Some ci" and "check_out b = Some co"
    and "listing b = Some lid" and "listings db lid = Some l" and "0 < co - ci"
  shows "compute_total_price db b =
           Inr (b\<lparr>total_price := Some (price_per_night l * of_int (co - ci))\<rparr>)"
  using assms by (simp add: compute_total_price_def)

text \<open>
  C1. A booking saved with a listing and both dates, whose whole-day count
  \<open>check_out - check_in\<close> is positive, is stored with \<open>total_price\<close> equal to the
  listing's \<open>price_per_night\<close> times that count. The save succeeds, whatever key the
  instance has and whatever \<open>total_price\<close> it held before (the variable \<open>b\<close> ranges
  over every prior value of that field), and the row written to the store is the
  instance with the recomputed price.
\<close>

theorem save_recomputes_total_price:
  assumes "check_in b = Some ci" and "check_out b = Some co"
    and "listing b = Some lid" and "listings db lid = Some l" and "0 < co - ci"
  shows "\<exists>k db'. Booking_save key b db =
             Inr (k, b\<lparr>total_price := Some (price_per_night l * of_int (co - ci))\<rparr>, db')
           \<and> bookings db' k =
             Some (b\<lparr>total_price := Some (price_per_night l * of_int (co - ci))\<rparr>)"
proof -
  let ?b = "b\<lparr>total_price := Some (price_per_night l * of_int (co - ci))\<rparr>"
  have c: "compute_total_price db b = Inr ?b"
    using assms by (rule compute_total_price_positive)
  have ok: "\<not> violates_constraints db ?b"
    using assms by (simp add: violates_constraints_def)
  show ?thesis
  proof (cases key)
    case None
    then show ?thesis
      using c ok by (simp add: Booking_save_def Model_save_def)
  next
    case (Some k)
    then show ?thesis
      using c ok by (simp add: Booking_save_def Model_save_def)
  qed
qed

text \<open>
  The example booking, submitted with a price of 7 in place of 300: the save stores
  100 times 3.
\<close>

theorem save_recomputes_total_price_witness:
  "check_in (example_booking\<lparr>total_price := Some 7\<rparr>) = Some 739038
   \<and> check_out (example_booking\<lparr>total_price := Some 7\<rparr>) = Some 739041
   \<and> listing (example_booking\<lparr>total_price := Some 7\<rparr>) = Some 1
   \<and> listings example_db 1 = Some example_listing
   \<and> (0::int) < 739041 - 739038
   \<and> (\<exists>k db'. Booking_save None (example_booking\<lparr>total_price := Some 7\<rparr>) example_db =
                Inr (k, example_booking\<lparr>total_price := Some 300\<rparr>, db')
              \<and> bookings db' k = Some (example_booking\<lparr>total_price := Some 300\<rparr>))"
proof -
  have h: "check_in (example_booking\<lparr>total_price := Some 7\<rparr>) = Some 739038"
    "check_out (example_booking\<lparr>total_price := Some 7\<rparr>) = Some 739041"
    "listing (example_booking\<lparr>total_price := Some 7\<rparr>) = Some 1"
    "listings example_db 1 = Some example_listing"
    "(0::int) < 739041 - 739038"
    by (simp_all add: example_booking_def example_db_def)
  have p: "price_per_night example_listing * 3 = 300"
    by (simp add: example_listing_def)
  show ?thesis
    using h save_recomputes_total_price [OF h, of None] by (simp add: p)
qed

section \<open>The booking queryset\<close>

lemmas example_defs = example_db_def example_booking_def example_listing_def request_of_def


lemma qs_filter_Some: "qs_filter P qs k = Some r \<longleftrightarrow> qs k = Some r \<and> P r"
  by (auto simp: qs_filter_def split: option.splits)

lemma get_queryset_Some:
  "BookingViewSet_get_queryset req db k = Some b \<longleftrightarrow>
     bookings db k = Some b
     \<and> (\<exists>l. Option.bind (listing b) (listings db) = Some l
            \<and> (Some (guest b) = user req \<or> Some (host l) = user req))
     \<and> passes_query_filters req b"
  by (auto simp: BookingViewSet_get_queryset_def passes_query_filters_def Let_def qs_filter_Some
      split: option.splits)

text \<open>
  Every row of the queryset passes \<open>IsGuestOrHost\<close>, so \<open>get_object\<close> fails only
  with \<open>Http404\<close>.
\<close>

lemma get_object_eq:
  "get_object req k db =
     (case BookingViewSet_get_queryset req db k of None \<Rightarrow> Inl Http404 | Some b \<Rightarrow> Inr b)"
proof (cases "BookingViewSet_get_queryset req db k")
  case None
  then show ?thesis by (simp add: get_object_def)
next
  case (Some b)
  then have "IsGuestOrHost_has_object_permission req db b"
    by (auto simp: get_queryset_Some IsGuestOrHost_has_object_permission_def)
  with Some show ?thesis by (simp add: get_object_def)
qed

text \<open>
  C9, as amended. The booking queryset of a request holds exactly the bookings whose
  guest is the requesting user or whose listing is hosted by the requesting user, and
  which the \<open>status\<close> and \<open>upcoming\<close> parameters of the request, where given,
  select. A request without these two parameters gets exactly the bookings of which the
  user is guest or host. In either case no booking of an unrelated user is in the
  queryset.
\<close>

theorem get_queryset_visible_set:
  "(BookingViewSet_get_queryset req db k = Some b \<longleftrightarrow>
      bookings db k = Some b
      \<and> (\<exists>l. Option.bind (listing b) (listings db) = Some l
             \<and> (Some (guest b) = user req \<or> Some (host l) = user req))
      \<and> passes_query_filters req b)
   \<and> (query_params req ''status'' = None \<and> query_params req ''upcoming'' = None \<longrightarrow>
        (BookingViewSet_get_queryset req db k = Some b \<longleftrightarrow>
           bookings db k = Some b
           \<and> (\<exists>l. Option.bind (listing b) (listings db) = Some l
                  \<and> (Some (guest b) = user req \<or> Some (host l) = user req))))"
  by (simp add: get_queryset_Some) (simp add: passes_query_filters_def)

text \<open>
  With no parameter, the guest (user 2) and the host (user 1) of the example booking each
  find it in their queryset, and user 3 does not. The guest also finds it with
  \<open>?status=pending&upcoming=True\<close>, the booking being pending and its check-in ahead.
\<close>

theorem get_queryset_visible_set_witness:
  "query_params (request_of 2 Map.empty) ''status'' = None
   \<and> query_params (request_of 2 Map.empty) ''upcoming'' = None
   \<and> BookingViewSet_get_queryset (request_of 2 Map.empty) example_db 1 = Some example_booking
   \<and> BookingViewSet_get_queryset (request_of 1 Map.empty) example_db 1 = Some example_booking
   \<and> BookingViewSet_get_queryset (request_of 3 Map.empty) example_db 1 \<noteq> Some example_booking
   \<and> passes_query_filters
        (request_of 2 [''status'' \<mapsto> ''pending'', ''upcoming'' \<mapsto> ''True'']) example_booking
   \<and> BookingViewSet_get_queryset
        (request_of 2 [''status'' \<mapsto> ''pending'', ''upcoming'' \<mapsto> ''True'']) example_db 1
       = Some example_booking"
proof -
  have f: "passes_query_filters
        (request_of 2 [''status'' \<mapsto> ''pending'', ''upcoming'' \<mapsto> ''True'']) example_booking"
    by (simp add: example_defs passes_query_filters_def str_lower_def lower_char_def)
  show ?thesis
    using f
      get_queryset_visible_set [of "request_of 2 Map.empty" example_db 1 example_booking]
      get_queryset_visible_set [of "request_of 1 Map.empty" example_db 1 example_booking]
      get_queryset_visible_set [of "request_of 3 Map.empty" example_db 1 example_booking]
      get_queryset_visible_set
        [of "request_of 2 [''status'' \<mapsto> ''pending'', ''upcoming'' \<mapsto> ''True'']"
            example_db 1 example_booking]
    by (simp add: example_defs)
qed

text \<open>
  The claim without the filters fails: user 2 is the guest of the pending example booking,
  and the queryset of the request \<open>?status=confirmed\<close> of user 2 does not hold it.
\<close>

theorem get_queryset_filtered_counterexample:
  "bookings example_db 1 = Some example_booking
   \<and> Some (guest example_booking) = user (request_of 2 [''status'' \<mapsto> ''confirmed''])
   \<and> BookingViewSet_get_queryset (request_of 2 [''status'' \<mapsto> ''confirmed'']) example_db 1 = None"
  by (simp add: example_defs BookingViewSet_get_queryset_def qs_filter_def)

section \<open>Cancel and confirm\<close>

text \<open>
  Rendering reads the listing and the review table only: what a booking is rendered to
  does not depend on the rows of the booking table.
\<close>

lemma Listing_average_rating_bookings [simp]:
  "Listing_average_rating (db\<lparr>bookings := bs\<rparr>) k = Listing_average_rating db k"
  by (simp add: Listing_average_rating_def listing_reviews_def)

lemma ListingSerializer_data_bookings [simp]:
  "ListingSerializer_data (db\<lparr>bookings := bs\<rparr>) k l = ListingSerializer_data db k l"
  by (simp add: ListingSerializer_data_def listing_reviews_def cong: sum.case_cong)

lemma BookingSerializer_data_bookings [simp]:
  "BookingSerializer_data (db\<lparr>bookings := bs\<rparr>) b = BookingSerializer_data db b"
  by (simp add: BookingSerializer_data_def cong: option.case_cong)



text \<open>
  The two handlers, with the permission checks and \<open>get_object\<close> unfolded.
\<close>

lemma cancel_eq:
  "BookingViewSet_cancel req k db =
     (case user req of
        None \<Rightarrow> (Inl NotAuthenticated, db)
      | Some u \<Rightarrow>
          (case BookingViewSet_get_queryset req db k of
             None \<Rightarrow> (Inl Http404, db)
           | Some b \<Rightarrow>
               if guest b \<noteq> u
               then (Inl (HttpResponse 403 ''You can only cancel your own bookings.''), db)
               else if status b = ''cancelled''
               then (Inl (HttpResponse 400 ''Booking is already cancelled.''), db)
               else (case Booking_save (Some k) (b\<lparr>status := ''cancelled''\<rparr>) db of
                       Inl e \<Rightarrow> (Inl e, db)
                     | Inr (_, b', db') \<Rightarrow> (BookingSerializer_data db' b', db'))))"
  by (auto simp: BookingViewSet_cancel_def check_permissions_def get_object_eq
      split: option.splits sum.splits)

lemma confirm_eq:
  "BookingViewSet_confirm req k db =
     (case user req of
        None \<Rightarrow> (Inl NotAuthenticated, db)
      | Some u \<Rightarrow>
          (case BookingViewSet_get_queryset req db k of
             None \<Rightarrow> (Inl Http404, db)
           | Some b \<Rightarrow>
               if map_option host (Option.bind (listing b) (listings db)) \<noteq> Some u
               then (Inl (HttpResponse 403 ''Only the host can confirm bookings.''), db)
               else if status b \<noteq> ''pending''
               then (Inl (HttpResponse 400 ''Only pending bookings can be confirmed.''), db)
               else (case Booking_save (Some k) (b\<lparr>status := ''confirmed''\<rparr>) db of
                       Inl e \<Rightarrow> (Inl e, db)
                     | Inr (_, b', db') \<Rightarrow> (BookingSerializer_data db' b', db'))))"
  by (auto simp: BookingViewSet_confirm_def check_permissions_def get_object_eq
      split: option.splits sum.splits)

text \<open>
  A request changes no row but the one it names, and a request that the status guard
  rejects changes nothing.
\<close>

lemma cancel_other_rows:
  "k' \<noteq> k \<Longrightarrow> bookings (snd (BookingViewSet_cancel req k' db)) k = bookings db k"
  by (auto simp: cancel_eq Booking_save_def Model_save_def
      split: option.splits sum.splits if_splits)

lemma confirm_other_rows:
  "k' \<noteq> k \<Longrightarrow> bookings (snd (BookingViewSet_confirm req k' db)) k = bookings db k"
  by (auto simp: confirm_eq Booking_save_def Model_save_def
      split: option.splits sum.splits if_splits)

lemma cancel_cancelled:
  "bookings db k = Some b \<Longrightarrow> status b = ''cancelled'' \<Longrightarrow>
     isl (fst (BookingViewSet_cancel req k db)) \<and> snd (BookingViewSet_cancel req k db) = db"
  by (auto simp: cancel_eq get_queryset_Some split: option.splits)

lemma confirm_not_pending:
  "bookings db k = Some b \<Longrightarrow> status b \<noteq> ''pending'' \<Longrightarrow>
     isl (fst (BookingViewSet_confirm req k db)) \<and> snd (BookingViewSet_confirm req k db) = db"
  by (auto simp: confirm_eq get_queryset_Some split: option.splits)

text \<open>
  The requests keep the invariant of the store, so the rows they find satisfy the
  constraints of the table.
\<close>

lemma Model_save_consistent:
  assumes "consistent db" and "Model_save key b db = Inr (k, db')"
  shows "consistent db'"
  using assms
  by (auto simp: consistent_def Model_save_def violates_constraints_def
      split: if_splits option.splits)

lemma Booking_save_consistent:
  assumes "consistent db" and "Booking_save key b db = Inr (k, b', db')"
  shows "consistent db'"
  using assms Model_save_consistent [of db key]
  by (auto simp: Booking_save_def split: sum.splits)

lemma cancel_consistent:
  "consistent db \<Longrightarrow> consistent (snd (BookingViewSet_cancel req k db))"
  using Booking_save_consistent [of db]
  by (auto simp: cancel_eq split: option.splits sum.splits)

lemma confirm_consistent:
  "consistent db \<Longrightarrow> consistent (snd (BookingViewSet_confirm req k db))"
  using Booking_save_consistent [of db]
  by (auto simp: confirm_eq split: option.splits sum.splits)

lemma create_consistent:
  "consistent db \<Longrightarrow> consistent (snd (BookingViewSet_create req p db))"
  using Booking_save_consistent [of db]
  by (auto simp: BookingViewSet_create_def BookingViewSet_perform_create_def
      split: option.splits sum.splits)

lemma example_db_consistent: "consistent example_db"
  by (simp add: consistent_def example_db_def example_booking_def violates_constraints_def)



text \<open>
  The definitions that evaluate a rendering, and the example booking as saved with a new
  status: its price is the one already stored, and it renders.
\<close>

lemmas render_defs = BookingSerializer_data_def ListingSerializer_data_def
  field_to_representation_def decimal_to_representation_def round_half_even_def
  Listing_average_rating_def listing_reviews_def






text \<open>
  When a rendering raises: a price of a whole number of currency units renders unless it
  has more than eight digits before the point, and a booking whose listing renders is
  rendered unless its price does not.
\<close>

lemma decimal_to_representation_int:
  "decimal_to_representation 10 2 (of_int n) =
     (if 10 ^ 8 \<le> \<bar>n\<bar> then Inl InvalidOperation else Inr (of_int n))"
proof -
  have "quotient_of (of_int n * 10 ^ 2) = (n * 100, 1)"
    using quotient_of_int [of "n * 100"] by (simp add: Rat.of_int_def)
  moreover have "round_half_even (n * 100) 1 = n * 100"
    by (simp add: round_half_even_def)
  moreover have "(10 ^ 10 \<le> \<bar>n * 100\<bar>) = (10 ^ 8 \<le> \<bar>n\<bar>)"
    by (simp add: abs_mult)
  ultimately show ?thesis
    by (simp add: decimal_to_representation_def)
qed

lemma BookingSerializer_data_isl:
  assumes "listing b = Some lid" and "listings db lid = Some l"
    and "\<not> isl (ListingSerializer_data db lid l)"
  shows "isl (BookingSerializer_data db b) \<longleftrightarrow>
           (\<exists>v. total_price b = Some v \<and> isl (decimal_to_representation 10 2 v))"
  using assms
  by (auto simp: BookingSerializer_data_def field_to_representation_def
      split: option.splits sum.splits)

text \<open>
  A rendering that raises. The example listing at 40000000.00 a night is a valid row of
  its table; three nights cost 120000000.00, which has eleven digits, and \<open>total_price\<close>
  is a \<open>DecimalField(max_digits=10)\<close>. The guest's request to cancel and the host's
  request to confirm write the row, with the new status and that price, and end in
  \<open>decimal.InvalidOperation\<close>.
\<close>

lemma cancel_price_beyond_ten_digits:
  "BookingViewSet_cancel (request_of 2 Map.empty) 1
     (example_db\<lparr>listings := [1 \<mapsto> example_listing\<lparr>price_per_night := 40000000\<rparr>]\<rparr>)
   = (Inl InvalidOperation,
      example_db\<lparr>listings := [1 \<mapsto> example_listing\<lparr>price_per_night := 40000000\<rparr>],
                 bookings := [1 \<mapsto> example_booking\<lparr>status := ''cancelled'',
                                                   total_price := Some 120000000\<rparr>]\<rparr>)"
  by (simp add: example_defs BookingViewSet_cancel_def check_permissions_def get_object_def
      BookingViewSet_get_queryset_def qs_filter_def IsGuestOrHost_has_object_permission_def
      Booking_save_def Model_save_def compute_total_price_def violates_constraints_def
      render_defs)

lemma confirm_price_beyond_ten_digits:
  "BookingViewSet_confirm (request_of 1 Map.empty) 1
     (example_db\<lparr>listings := [1 \<mapsto> example_listing\<lparr>price_per_night := 40000000\<rparr>]\<rparr>)
   = (Inl InvalidOperation,
      example_db\<lparr>listings := [1 \<mapsto> example_listing\<lparr>price_per_night := 40000000\<rparr>],
                 bookings := [1 \<mapsto> example_booking\<lparr>status := ''confirmed'',
                                                   total_price := Some 120000000\<rparr>]\<rparr>)"
  by (simp add: example_defs BookingViewSet_confirm_def check_permissions_def get_object_def
      BookingViewSet_get_queryset_def qs_filter_def IsGuestOrHost_has_object_permission_def
      Booking_save_def Model_save_def compute_total_price_def violates_constraints_def
      render_defs)

section \<open>Terminal states\<close>

text \<open>
  C3, as amended. A stored booking whose status is \<open>cancelled\<close> is changed by no cancel
  and no confirm request, whichever booking the request names: a request for the booking
  itself is rejected, and the row is the same afterwards. A stored booking whose status is
  \<open>completed\<close> is changed by no confirm request. (A cancel request of its guest does
  change a completed booking; see the counterexample.)
\<close>

theorem cancelled_is_terminal:
  assumes "bookings db k = Some b"
  shows "(status b = ''cancelled'' \<longrightarrow>
            isl (fst (BookingViewSet_cancel req k db))
            \<and> isl (fst (BookingViewSet_confirm req k db))
            \<and> bookings (snd (BookingViewSet_cancel req k' db)) k = Some b
            \<and> bookings (snd (BookingViewSet_confirm req k' db)) k = Some b)
       \<and> (status b = ''completed'' \<longrightarrow>
            isl (fst (BookingViewSet_confirm req k db))
            \<and> bookings (snd (BookingViewSet_confirm req k' db)) k = Some b)"
proof (intro conjI impI)
  assume c: "status b = ''cancelled''"
  show "isl (fst (BookingViewSet_cancel req k db))"
    using cancel_cancelled [OF assms c] by simp
  show "isl (fst (BookingViewSet_confirm req k db))"
    using confirm_not_pending [OF assms] c by simp
  show "bookings (snd (BookingViewSet_cancel req k' db)) k = Some b"
    using cancel_cancelled [OF assms c, of req] cancel_other_rows [of k' k req db] assms
    by (cases "k' = k") auto
  show "bookings (snd (BookingViewSet_confirm req k' db)) k = Some b"
    using confirm_not_pending [OF assms, of req] c confirm_other_rows [of k' k req db] assms
    by (cases "k' = k") auto
next
  assume c: "status b = ''completed''"
  show "isl (fst (BookingViewSet_confirm req k db))"
    using confirm_not_pending [OF assms] c by simp
  show "bookings (snd (BookingViewSet_confirm req k' db)) k = Some b"
    using confirm_not_pending [OF assms, of req] c confirm_other_rows [of k' k req db] assms
    by (cases "k' = k") auto
qed

text \<open>
  The example booking, cancelled: its guest cannot cancel it again and its host cannot
  confirm it. The example booking, completed: its host cannot confirm it.
\<close>

theorem cancelled_is_terminal_witness:
  "bookings (example_db_status ''cancelled'') 1 = Some (example_booking\<lparr>status := ''cancelled''\<rparr>)
   \<and> status (example_booking\<lparr>status := ''cancelled''\<rparr>) = ''cancelled''
   \<and> isl (fst (BookingViewSet_cancel (request_of 2 Map.empty) 1 (example_db_status ''cancelled'')))
   \<and> bookings (snd (BookingViewSet_cancel (request_of 2 Map.empty) 1
                   (example_db_status ''cancelled''))) 1
       = Some (example_booking\<lparr>status := ''cancelled''\<rparr>)
   \<and> bookings (snd (BookingViewSet_confirm (request_of 1 Map.empty) 1
                   (example_db_status ''cancelled''))) 1
       = Some (example_booking\<lparr>status := ''cancelled''\<rparr>)
   \<and> bookings (example_db_status ''completed'') 1 = Some (example_booking\<lparr>status := ''completed''\<rparr>)
   \<and> status (example_booking\<lparr>status := ''completed''\<rparr>) = ''completed''
   \<and> bookings (snd (BookingViewSet_confirm (request_of 1 Map.empty) 1
                   (example_db_status ''completed''))) 1
       = Some (example_booking\<lparr>status := ''completed''\<rparr>)"
proof -
  have r: "bookings (example_db_status ''cancelled'') 1
             = Some (example_booking\<lparr>status := ''cancelled''\<rparr>)"
    "bookings (example_db_status ''completed'') 1
             = Some (example_booking\<lparr>status := ''completed''\<rparr>)"
    by (simp_all add: example_defs example_db_status_def)
  show ?thesis
    using r
      cancelled_is_terminal [OF r(1), of "request_of 2 Map.empty" 1]
      cancelled_is_terminal [OF r(1), of "request_of 1 Map.empty" 1]
      cancelled_is_terminal [OF r(2), of "request_of 1 Map.empty" 1]
    by simp
qed

text \<open>
  \<open>completed\<close> is not terminal: the guest of the completed example booking cancels it,
  and it is stored with status \<open>cancelled\<close>.
\<close>

theorem cancel_completed_counterexample:
  "map_option status (bookings (example_db_status ''completed'') 1) = Some ''completed''
   \<and> map_option status
        (bookings (snd (BookingViewSet_cancel (request_of 2 Map.empty) 1
                          (example_db_status ''completed''))) 1)
       = Some ''cancelled''"
  by (simp add: example_defs example_db_status_def BookingViewSet_cancel_def
      check_permissions_def get_object_def BookingViewSet_get_queryset_def qs_filter_def
      IsGuestOrHost_has_object_permission_def Booking_save_def Model_save_def
      compute_total_price_def violates_constraints_def BookingSerializer_data_def
      ListingSerializer_data_def field_to_representation_def decimal_to_representation_def
      round_half_even_def Listing_average_rating_def listing_reviews_def)

section \<open>The price after cancel and confirm\<close>

text \<open>
  An answer that is no error is a rendered booking.
\<close>

lemma not_isl_iff: "\<not> isl x \<longleftrightarrow> (\<exists>r. x = Inr r)"
  by (cases x) auto

text \<open>
  C10. For a stored booking whose dates span a positive number of days, \<open>l\<close> being the
  row of its listing at the time of the request: a cancel request of the guest for a
  booking not yet cancelled, and a confirm request of the host for a pending booking,
  whose parameters (if any) select the booking, store the booking with the new status
  and with \<open>total_price\<close> equal to the price per night of \<open>l\<close> times the number of
  nights, whatever price was stored before, and answer with the rendering of that
  booking; the request succeeds when no field raises in the rendering. Every successful
  cancel or confirm request has stored the booking with that price and answers with its
  rendering.
\<close>

theorem actions_recompute_total_price:
  assumes "bookings db k = Some b"
    and "check_in b = Some ci" and "check_out b = Some co" and "0 < co - ci"
    and "listing b = Some lid" and "listings db lid = Some l"
  shows "(user req = Some (guest b) \<and> status b \<noteq> ''cancelled'' \<and> passes_query_filters req b \<longrightarrow>
            bookings (snd (BookingViewSet_cancel req k db)) k
              = Some (b\<lparr>status := ''cancelled'',
                        total_price := Some (price_per_night l * of_int (co - ci))\<rparr>)
            \<and> fst (BookingViewSet_cancel req k db)
                = BookingSerializer_data db
                    (b\<lparr>status := ''cancelled'',
                       total_price := Some (price_per_night l * of_int (co - ci))\<rparr>)
            \<and> (\<not> isl (BookingSerializer_data db
                        (b\<lparr>status := ''cancelled'',
                           total_price := Some (price_per_night l * of_int (co - ci))\<rparr>)) \<longrightarrow>
                 (\<exists>r. fst (BookingViewSet_cancel req k db) = Inr r)))
       \<and> (user req = Some (host l) \<and> status b = ''pending'' \<and> passes_query_filters req b \<longrightarrow>
            bookings (snd (BookingViewSet_confirm req k db)) k
              = Some (b\<lparr>status := ''confirmed'',
                        total_price := Some (price_per_night l * of_int (co - ci))\<rparr>)
            \<and> fst (BookingViewSet_confirm req k db)
                = BookingSerializer_data db
                    (b\<lparr>status := ''confirmed'',
                       total_price := Some (price_per_night l * of_int (co - ci))\<rparr>)
            \<and> (\<not> isl (BookingSerializer_data db
                        (b\<lparr>status := ''confirmed'',
                           total_price := Some (price_per_night l * of_int (co - ci))\<rparr>)) \<longrightarrow>
                 (\<exists>r. fst (BookingViewSet_confirm req k db) = Inr r)))
       \<and> (\<forall>r. fst (BookingViewSet_cancel req k db) = Inr r \<longrightarrow>
            bookings (snd (BookingViewSet_cancel req k db)) k
              = Some (b\<lparr>status := ''cancelled'',
                        total_price := Some (price_per_night l * of_int (co - ci))\<rparr>)
            \<and> BookingSerializer_data db
                 (b\<lparr>status := ''cancelled'',
                    total_price := Some (price_per_night l * of_int (co - ci))\<rparr>) = Inr r)
       \<and> (\<forall>r. fst (BookingViewSet_confirm req k db) = Inr r \<longrightarrow>
            bookings (snd (BookingViewSet_confirm req k db)) k
              = Some (b\<lparr>status := ''confirmed'',
                        total_price := Some (price_per_night l * of_int (co - ci))\<rparr>)
            \<and> BookingSerializer_data db
                 (b\<lparr>status := ''confirmed'',
                    total_price := Some (price_per_night l * of_int (co - ci))\<rparr>) = Inr r)"
proof -
  let ?bc = "b\<lparr>status := ''cancelled'',
               total_price := Some (price_per_night l * of_int (co - ci))\<rparr>"
  let ?bf = "b\<lparr>status := ''confirmed'',
               total_price := Some (price_per_night l * of_int (co - ci))\<rparr>"
  have c: "\<And>s. compute_total_price db (b\<lparr>status := s\<rparr>)
        = Inr (b\<lparr>status := s, total_price := Some (price_per_night l * of_int (co - ci))\<rparr>)"
    using assms(2-6) by (simp add: compute_total_price_def)
  have v: "\<And>s. \<not> violates_constraints db
        (b\<lparr>status := s, total_price := Some (price_per_night l * of_int (co - ci))\<rparr>)"
    using assms(2-6) by (simp add: violates_constraints_def)
  have s: "\<And>s. Booking_save (Some k) (b\<lparr>status := s\<rparr>) db
        = Inr (k, b\<lparr>status := s, total_price := Some (price_per_night l * of_int (co - ci))\<rparr>,
               db\<lparr>bookings := (bookings db)(k \<mapsto>
                 b\<lparr>status := s, total_price := Some (price_per_night l * of_int (co - ci))\<rparr>)\<rparr>)"
    using c v by (simp add: Booking_save_def Model_save_def)
  have bl: "Option.bind (listing b) (listings db) = Some l"
    using assms(5,6) by simp
  have q: "BookingViewSet_get_queryset req db k
        = (if (Some (guest b) = user req \<or> Some (host l) = user req) \<and> passes_query_filters req b
           then Some b else None)"
  proof (cases "BookingViewSet_get_queryset req db k")
    case None
    then have "\<not> ((Some (guest b) = user req \<or> Some (host l) = user req)
                 \<and> passes_query_filters req b)"
      using get_queryset_Some [of req db k b] assms(1) bl by auto
    with None show ?thesis by simp
  next
    case (Some b0)
    then have "b0 = b \<and> (Some (guest b) = user req \<or> Some (host l) = user req)
                 \<and> passes_query_filters req b"
      using get_queryset_Some [of req db k b0] assms(1) bl by auto
    with Some show ?thesis by simp
  qed
  have h: "map_option host (Option.bind (listing b) (listings db)) = Some (host l)"
    using assms(5,6) by simp
  have ca: "BookingViewSet_cancel req k db
              = (BookingSerializer_data db ?bc, db\<lparr>bookings := (bookings db)(k \<mapsto> ?bc)\<rparr>)"
    if "user req = Some (guest b)" "status b \<noteq> ''cancelled''" "passes_query_filters req b"
    using that by (simp add: cancel_eq q s)
  have cf: "BookingViewSet_confirm req k db
              = (BookingSerializer_data db ?bf, db\<lparr>bookings := (bookings db)(k \<mapsto> ?bf)\<rparr>)"
    if "user req = Some (host l)" "status b = ''pending''" "passes_query_filters req b"
    using that by (simp add: confirm_eq q s h)
  have cs: "user req = Some (guest b) \<and> status b \<noteq> ''cancelled'' \<and> passes_query_filters req b"
    if "fst (BookingViewSet_cancel req k db) = Inr r" for r
    using that by (cases "user req") (auto simp: cancel_eq q split: if_splits)
  have fs: "user req = Some (host l) \<and> status b = ''pending'' \<and> passes_query_filters req b"
    if "fst (BookingViewSet_confirm req k db) = Inr r" for r
    using that by (cases "user req") (auto simp: confirm_eq q h split: if_splits)
  have A: "user req = Some (guest b) \<and> status b \<noteq> ''cancelled'' \<and> passes_query_filters req b \<longrightarrow>
            bookings (snd (BookingViewSet_cancel req k db)) k = Some ?bc
            \<and> fst (BookingViewSet_cancel req k db) = BookingSerializer_data db ?bc
            \<and> (\<not> isl (BookingSerializer_data db ?bc) \<longrightarrow>
                 (\<exists>r. fst (BookingViewSet_cancel req k db) = Inr r))"
  proof
    assume "user req = Some (guest b) \<and> status b \<noteq> ''cancelled'' \<and> passes_query_filters req b"
    then have e: "BookingViewSet_cancel req k db
              = (BookingSerializer_data db ?bc, db\<lparr>bookings := (bookings db)(k \<mapsto> ?bc)\<rparr>)"
      using ca by blast
    show "bookings (snd (BookingViewSet_cancel req k db)) k = Some ?bc
            \<and> fst (BookingViewSet_cancel req k db) = BookingSerializer_data db ?bc
            \<and> (\<not> isl (BookingSerializer_data db ?bc) \<longrightarrow>
                 (\<exists>r. fst (BookingViewSet_cancel req k db) = Inr r))"
      unfolding e by (simp add: not_isl_iff)
  qed
  have B: "user req = Some (host l) \<and> status b = ''pending'' \<and> passes_query_filters req b \<longrightarrow>
            bookings (snd (BookingViewSet_confirm req k db)) k = Some ?bf
            \<and> fst (BookingViewSet_confirm req k db) = BookingSerializer_data db ?bf
            \<and> (\<not> isl (BookingSerializer_data db ?bf) \<longrightarrow>
                 (\<exists>r. fst (BookingViewSet_confirm req k db) = Inr r))"
  proof
    assume "user req = Some (host l) \<and> status b = ''pending'' \<and> passes_query_filters req b"
    then have e: "BookingViewSet_confirm req k db
              = (BookingSerializer_data db ?bf, db\<lparr>bookings := (bookings db)(k \<mapsto> ?bf)\<rparr>)"
      using cf by blast
    show "bookings (snd (BookingViewSet_confirm req k db)) k = Some ?bf
            \<and> fst (BookingViewSet_confirm req k db) = BookingSerializer_data db ?bf
            \<and> (\<not> isl (BookingSerializer_data db ?bf) \<longrightarrow>
                 (\<exists>r. fst (BookingViewSet_confirm req k db) = Inr r))"
      unfolding e by (simp add: not_isl_iff)
  qed
  have C: "\<forall>r. fst (BookingViewSet_cancel req k db) = Inr r \<longrightarrow>
            bookings (snd (BookingViewSet_cancel req k db)) k = Some ?bc
            \<and> BookingSerializer_data db ?bc = Inr r"
  proof (intro allI impI)
    fix r assume f: "fst (BookingViewSet_cancel req k db) = Inr r"
    have e: "BookingViewSet_cancel req k db
              = (BookingSerializer_data db ?bc, db\<lparr>bookings := (bookings db)(k \<mapsto> ?bc)\<rparr>)"
      using cs [OF f] ca by blast
    show "bookings (snd (BookingViewSet_cancel req k db)) k = Some ?bc
            \<and> BookingSerializer_data db ?bc = Inr r"
      using f unfolding e by simp
  qed
  have D: "\<forall>r. fst (BookingViewSet_confirm req k db) = Inr r \<longrightarrow>
            bookings (snd (BookingViewSet_confirm req k db)) k = Some ?bf
            \<and> BookingSerializer_data db ?bf = Inr r"
  proof (intro allI impI)
    fix r assume f: "fst (BookingViewSet_confirm req k db) = Inr r"
    have e: "BookingViewSet_confirm req k db
              = (BookingSerializer_data db ?bf, db\<lparr>bookings := (bookings db)(k \<mapsto> ?bf)\<rparr>)"
      using fs [OF f] cf by blast
    show "bookings (snd (BookingViewSet_confirm req k db)) k = Some ?bf
            \<and> BookingSerializer_data db ?bf = Inr r"
      using f unfolding e by simp
  qed
  show ?thesis
    by (rule conjI [OF A conjI [OF B conjI [OF C D]]])
qed

text \<open>
  The example booking was stored with the price 300, three nights at 100; its listing
  now costs 150 a night. The guest's cancel request and the host's confirm request both
  succeed, and both store and answer the booking with the price 450.
\<close>

theorem actions_recompute_total_price_witness:
  "bookings (example_db_repriced 150) 1 = Some example_booking
   \<and> check_in example_booking = Some 739038 \<and> check_out example_booking = Some 739041
   \<and> (0::int) < 739041 - 739038
   \<and> listing example_booking = Some 1
   \<and> listings (example_db_repriced 150) 1 = Some (example_listing\<lparr>price_per_night := 150\<rparr>)
   \<and> total_price example_booking = Some 300
   \<and> user (request_of 2 Map.empty) = Some (guest example_booking)
   \<and> status example_booking \<noteq> ''cancelled''
   \<and> passes_query_filters (request_of 2 Map.empty) example_booking
   \<and> (\<exists>r. fst (BookingViewSet_cancel (request_of 2 Map.empty) 1 (example_db_repriced 150)) = Inr r
            \<and> repr_total_price r = Some 450)
   \<and> bookings (snd (BookingViewSet_cancel (request_of 2 Map.empty) 1 (example_db_repriced 150))) 1
       = Some (example_booking\<lparr>status := ''cancelled'', total_price := Some 450\<rparr>)
   \<and> user (request_of 1 Map.empty) = Some (host (example_listing\<lparr>price_per_night := 150\<rparr>))
   \<and> status example_booking = ''pending''
   \<and> passes_query_filters (request_of 1 Map.empty) example_booking
   \<and> (\<exists>r. fst (BookingViewSet_confirm (request_of 1 Map.empty) 1 (example_db_repriced 150)) = Inr r
            \<and> repr_total_price r = Some 450)
   \<and> bookings (snd (BookingViewSet_confirm (request_of 1 Map.empty) 1 (example_db_repriced 150))) 1
       = Some (example_booking\<lparr>status := ''confirmed'', total_price := Some 450\<rparr>)"
proof -
  have h: "bookings (example_db_repriced 150) 1 = Some example_booking"
    "check_in example_booking = Some 739038" "check_out example_booking = Some 739041"
    "(0::int) < 739041 - 739038"
    "listing example_booking = Some 1"
    "listings (example_db_repriced 150) 1 = Some (example_listing\<lparr>price_per_night := 150\<rparr>)"
    by (simp_all add: example_defs example_db_repriced_def)
  have g: "total_price example_booking = Some 300"
    "user (request_of 2 Map.empty) = Some (guest example_booking)"
    "status example_booking \<noteq> ''cancelled''"
    "passes_query_filters (request_of 2 Map.empty) example_booking"
    "user (request_of 1 Map.empty) = Some (host (example_listing\<lparr>price_per_night := 150\<rparr>))"
    "status example_booking = ''pending''"
    "passes_query_filters (request_of 1 Map.empty) example_booking"
    by (simp_all add: example_defs passes_query_filters_def)
  have p: "price_per_night (example_listing\<lparr>price_per_night := 150\<rparr>) * of_int (739041 - 739038)
        = 450"
    by simp
  have r: "\<And>s. \<exists>r. BookingSerializer_data (example_db_repriced 150)
        (example_booking\<lparr>status := s, total_price := Some 450\<rparr>) = Inr r
        \<and> repr_total_price r = Some 450"
    by (simp add: example_defs example_db_repriced_def render_defs)
  note t2 = actions_recompute_total_price [OF h, of "request_of 2 Map.empty", unfolded p]
  note t1 = actions_recompute_total_price [OF h, of "request_of 1 Map.empty", unfolded p]
  obtain rc where rc: "BookingSerializer_data (example_db_repriced 150)
        (example_booking\<lparr>status := ''cancelled'', total_price := Some 450\<rparr>) = Inr rc"
      "repr_total_price rc = Some 450"
    using r [of "''cancelled''"] by blast
  obtain rf where rf: "BookingSerializer_data (example_db_repriced 150)
        (example_booking\<lparr>status := ''confirmed'', total_price := Some 450\<rparr>) = Inr rf"
      "repr_total_price rf = Some 450"
    using r [of "''confirmed''"] by blast
  have c0: "bookings (snd (BookingViewSet_cancel (request_of 2 Map.empty) 1 (example_db_repriced 150))) 1
       = Some (example_booking\<lparr>status := ''cancelled'', total_price := Some 450\<rparr>)
     \<and> fst (BookingViewSet_cancel (request_of 2 Map.empty) 1 (example_db_repriced 150))
       = BookingSerializer_data (example_db_repriced 150)
           (example_booking\<lparr>status := ''cancelled'', total_price := Some 450\<rparr>)"
    using t2 g(2-4) by blast
  have c: "fst (BookingViewSet_cancel (request_of 2 Map.empty) 1 (example_db_repriced 150)) = Inr rc"
    "bookings (snd (BookingViewSet_cancel (request_of 2 Map.empty) 1 (example_db_repriced 150))) 1
       = Some (example_booking\<lparr>status := ''cancelled'', total_price := Some 450\<rparr>)"
    using c0 rc(1) by (simp_all only:)
  have f0: "bookings (snd (BookingViewSet_confirm (request_of 1 Map.empty) 1 (example_db_repriced 150))) 1
       = Some (example_booking\<lparr>status := ''confirmed'', total_price := Some 450\<rparr>)
     \<and> fst (BookingViewSet_confirm (request_of 1 Map.empty) 1 (example_db_repriced 150))
       = BookingSerializer_data (example_db_repriced 150)
           (example_booking\<lparr>status := ''confirmed'', total_price := Some 450\<rparr>)"
    using t1 g(5-7) by blast
  have f: "fst (BookingViewSet_confirm (request_of 1 Map.empty) 1 (example_db_repriced 150)) = Inr rf"
    "bookings (snd (BookingViewSet_confirm (request_of 1 Map.empty) 1 (example_db_repriced 150))) 1
       = Some (example_booking\<lparr>status := ''confirmed'', total_price := Some 450\<rparr>)"
    using f0 rf(1) by (simp_all only:)
  show ?thesis
    using h g c f rc(2) rf(2) by blast
qed

section \<open>Creating a booking\<close>

text \<open>
  The three checks live in \<open>BookingSerializer.validate\<close>, and the action \<open>create\<close>
  validates with \<open>BookingCreateSerializer\<close>, which has none of them. Each of the next
  three theorems runs a create request of user 2 and, beside it, \<open>validate\<close> of
  \<open>BookingSerializer\<close> on the same attributes.
\<close>

text \<open>
  C2. A payload with \<open>check_in = check_out\<close>: \<open>BookingSerializer.validate\<close> would
  raise its validation error, the serializer of the action accepts the attributes, and the
  request fails only when the row, whose price was never set, is refused by the store. No
  validation error is raised; no booking is stored. A payload with
  \<open>check_in > check_out\<close> ends the same way.
\<close>

theorem create_same_day_no_validation_error:
  "to_internal_value example_db same_day_payload
     = Inr \<lparr>attrs_listing = (1, example_listing), attrs_check_in = 739038,
            attrs_check_out = 739038, attrs_guests_count = 2, attrs_special_requests = []\<rparr>
   \<and> BookingSerializer_validate
        \<lparr>attrs_listing = (1, example_listing), attrs_check_in = 739038,
         attrs_check_out = 739038, attrs_guests_count = 2, attrs_special_requests = []\<rparr>
       = Inl (ValidationError ''Check-out date must be after check-in date'')
   \<and> serializer_validate (BookingViewSet_get_serializer_class ''create'')
        \<lparr>attrs_listing = (1, example_listing), attrs_check_in = 739038,
         attrs_check_out = 739038, attrs_guests_count = 2, attrs_special_requests = []\<rparr>
       = Inr \<lparr>attrs_listing = (1, example_listing), attrs_check_in = 739038,
              attrs_check_out = 739038, attrs_guests_count = 2, attrs_special_requests = []\<rparr>
   \<and> BookingViewSet_create (request_of 2 Map.empty) same_day_payload example_db
       = (Inl IntegrityError, example_db)
   \<and> BookingViewSet_create (request_of 2 Map.empty) reversed_payload example_db
       = (Inl IntegrityError, example_db)"
  by (simp add: example_defs same_day_payload_def reversed_payload_def BookingViewSet_create_def check_permissions_def
      to_internal_value_def serializer_validate_def BookingViewSet_get_serializer_class_def
      BookingViewSet_perform_create_def Booking_save_def Model_save_def
      compute_total_price_def violates_constraints_def
      BookingSerializer_validate_def)

text \<open>
  C4. Five guests for a listing that allows four: \<open>BookingSerializer.validate\<close> would
  raise its validation error; the request succeeds and the booking is stored under key 2.
\<close>

theorem create_over_capacity_is_stored:
  "max_guests example_listing = 4
   \<and> BookingSerializer_validate
        \<lparr>attrs_listing = (1, example_listing), attrs_check_in = 739038,
         attrs_check_out = 739041, attrs_guests_count = 5, attrs_special_requests = []\<rparr>
       = Inl (ValidationError ''Maximum guests allowed is 4'')
   \<and> fst (BookingViewSet_create (request_of 2 Map.empty) (example_payload 5) example_db)
       = Inr (2, example_booking\<lparr>guests_count := 5\<rparr>)
   \<and> bookings (snd (BookingViewSet_create (request_of 2 Map.empty) (example_payload 5)
                        example_db)) 2
       = Some (example_booking\<lparr>guests_count := 5\<rparr>)"
  by (simp add: example_defs example_payload_def BookingViewSet_create_def check_permissions_def
      to_internal_value_def serializer_validate_def BookingViewSet_get_serializer_class_def
      BookingViewSet_perform_create_def Booking_save_def Model_save_def
      compute_total_price_def violates_constraints_def
      BookingSerializer_validate_def)

text \<open>
  C5. A listing that is not available: \<open>BookingSerializer.validate\<close> would raise its
  validation error; the request succeeds and the booking is stored under key 2.
\<close>

theorem create_for_unavailable_listing_is_stored:
  "map_option is_available (listings example_db_unavailable 1) = Some False
   \<and> BookingSerializer_validate
        \<lparr>attrs_listing = (1, example_listing\<lparr>is_available := False\<rparr>),
         attrs_check_in = 739038, attrs_check_out = 739041, attrs_guests_count = 2,
         attrs_special_requests = []\<rparr>
       = Inl (ValidationError ''This listing is not available'')
   \<and> fst (BookingViewSet_create (request_of 2 Map.empty) (example_payload 2)
             example_db_unavailable)
       = Inr (2, example_booking)
   \<and> bookings (snd (BookingViewSet_create (request_of 2 Map.empty) (example_payload 2)
                        example_db_unavailable)) 2
       = Some example_booking"
  by (simp add: example_defs example_payload_def example_db_unavailable_def BookingViewSet_create_def check_permissions_def
      to_internal_value_def serializer_validate_def BookingViewSet_get_serializer_class_def
      BookingViewSet_perform_create_def Booking_save_def Model_save_def
      compute_total_price_def violates_constraints_def
      BookingSerializer_validate_def)

section \<open>The average rating\<close>

text \<open>
  The bit length by halving, and the powers of two.
\<close>

lemma bit_length_code: "bit_length n = (if n = 0 then 0 else Suc (bit_length (n div 2)))"
  by (cases n) simp_all

lemma pow2_powi: "pow2 k = 2 powi k"
  by (simp add: pow2_def power_int_def field_simps)

lemma pow2_pos: "0 < pow2 k"
  by (simp add: pow2_powi)

lemma pow2_add: "pow2 (i + j) = pow2 i * pow2 j"
  by (simp add: pow2_powi power_int_add)

lemma pow2_mono: "i \<le> j \<Longrightarrow> pow2 i \<le> pow2 j"
  by (simp add: pow2_powi power_int_increasing)

lemma pow2_nat: "pow2 (int n) = 2 ^ n"
  by (simp add: pow2_def)

lemma bit_length_bounds: "0 < n \<Longrightarrow> 2 ^ (bit_length n - 1) \<le> n \<and> n < 2 ^ bit_length n"
proof (induction n rule: less_induct)
  case (less n)
  show ?case
  proof (cases "n div 2 = 0")
    case True
    with less.prems have "n = 1" by presburger
    then show ?thesis by (simp add: bit_length_code)
  next
    case False
    have "n div 2 < n" using less.prems by simp
    from less.IH [OF this] False
    have ih: "2 ^ (bit_length (n div 2) - 1) \<le> n div 2" "n div 2 < 2 ^ bit_length (n div 2)"
      by auto
    have pos: "0 < bit_length (n div 2)"
      using False by (subst bit_length_code) simp
    have bl: "bit_length n = Suc (bit_length (n div 2))"
      using less.prems by (subst bit_length_code) simp
    from pos obtain j where j: "bit_length (n div 2) = Suc j"
      by (cases "bit_length (n div 2)") auto
    have "2 * 2 ^ j \<le> n" using ih(1) j by simp
    moreover have "n < 2 * 2 ^ Suc j" using ih(2) j by simp
    ultimately show ?thesis by (simp add: bl j)
  qed
qed

text \<open>The rounded integer is within one half of the quotient.\<close>

lemma round_half_even_bound:
  assumes "0 < den"
  shows "\<bar>of_int (round_half_even num den) - (of_int num / of_int den :: rat)\<bar> \<le> 1 / 2"
proof -
  define n r where "n = num div den" and "r = num mod den"
  have num: "num = n * den + r" by (simp add: n_def r_def)
  have r: "0 \<le> r" "r < den" using assms by (simp_all add: r_def)
  have q: "(of_int num / of_int den :: rat) = of_int n + of_int r / of_int den"
    using assms by (simp add: num field_simps)
  have r1: "0 \<le> (of_int r / of_int den :: rat)" using r assms by simp
  have h1: "2 * r < den \<Longrightarrow> (of_int r / of_int den :: rat) \<le> 1 / 2"
  proof -
    assume "2 * r < den"
    then have "(of_int (2 * r) :: rat) \<le> of_int den" by (simp only: of_int_le_iff)
    then show ?thesis using assms by (simp add: field_simps)
  qed
  have h2: "den \<le> 2 * r \<Longrightarrow> 1 / 2 \<le> (of_int r / of_int den :: rat)"
  proof -
    assume "den \<le> 2 * r"
    then have "(of_int den :: rat) \<le> of_int (2 * r)" by (simp only: of_int_le_iff)
    then show ?thesis using assms by (simp add: field_simps)
  qed
  have h3: "(of_int r / of_int den :: rat) < 1"
    using r assms by simp
  show ?thesis
    unfolding round_half_even_def Let_def n_def [symmetric] r_def [symmetric] q
    using h1 h2 h3 r1 by (auto simp: abs_if)
qed

text \<open>
  A quotient that is an integer is kept.
\<close>

lemma round_half_even_dvd:
  assumes "0 < den" and "den dvd num"
  shows "round_half_even num den = num div den"
  using assms by (auto simp: round_half_even_def Let_def)

lemma pow2_0: "pow2 0 = 1"
  by (simp add: pow2_def)

lemma pow2_less_imp: "pow2 i < pow2 j \<Longrightarrow> i < j"
  using pow2_mono [of j i] by (cases "i < j") auto

text \<open>
  The exponent that \<open>quotient_exponent\<close> computes is the binary exponent of the quotient.
\<close>

lemma bit_length_pow2:
  assumes "0 < n"
  shows "pow2 (int (bit_length n) - 1) \<le> of_nat n" and "of_nat n < pow2 (int (bit_length n))"
proof -
  from bit_length_bounds [OF assms]
  have b: "2 ^ (bit_length n - 1) \<le> n" "n < 2 ^ bit_length n" by auto
  have p: "0 < bit_length n"
    using assms by (subst bit_length_code) simp
  then obtain j where j: "bit_length n = Suc j"
    by (cases "bit_length n") auto
  have "pow2 (int (bit_length n) - 1) = pow2 (int j)"
    by (simp add: j)
  also have "\<dots> = of_nat (2 ^ j)"
    by (simp add: pow2_nat)
  also have "\<dots> \<le> of_nat n"
    using b(1) unfolding j by (simp only: of_nat_le_iff diff_Suc_1)
  finally show "pow2 (int (bit_length n) - 1) \<le> of_nat n" .
  have "(of_nat n :: rat) < of_nat (2 ^ bit_length n)" using b(2) by (simp only: of_nat_less_iff)
  then show "of_nat n < pow2 (int (bit_length n))" by (simp add: pow2_nat)
qed

lemma quotient_exponent_bounds:
  assumes "0 < a" and "0 < b"
  shows "pow2 (quotient_exponent a b) * of_nat b \<le> of_nat a"
    and "of_nat a < pow2 (quotient_exponent a b + 1) * of_nat b"
proof -
  define d where "d = int (bit_length a) - int (bit_length b)"
  note ba = bit_length_pow2 [OF assms(1)] and bb = bit_length_pow2 [OF assms(2)]
  have bpos: "(0::rat) < of_nat b" using assms(2) by simp
  have up: "of_nat a < pow2 (d + 1) * of_nat b"
  proof -
    have "pow2 (int (bit_length a)) = pow2 (d + 1) * pow2 (int (bit_length b) - 1)"
      by (simp add: d_def pow2_add [symmetric])
    also have "\<dots> \<le> pow2 (d + 1) * of_nat b"
      using bb(1) pow2_pos [of "d + 1"] by simp
    finally show ?thesis using ba(2) by simp
  qed
  have lo: "pow2 (d - 1) * of_nat b \<le> of_nat a"
  proof -
    have "pow2 (d - 1) * of_nat b \<le> pow2 (d - 1) * pow2 (int (bit_length b))"
      using bb(2) pow2_pos [of "d - 1"] by simp
    also have "\<dots> = pow2 (int (bit_length a) - 1)"
      by (simp add: d_def pow2_add [symmetric])
    finally show ?thesis using ba(1) by simp
  qed
  show "pow2 (quotient_exponent a b) * of_nat b \<le> of_nat a"
    using lo by (simp add: quotient_exponent_def d_def [symmetric] Let_def)
  show "of_nat a < pow2 (quotient_exponent a b + 1) * of_nat b"
    using up by (auto simp: quotient_exponent_def d_def [symmetric] Let_def)
qed

lemma pow2_neg: "pow2 (- k) = 1 / pow2 k"
  by (simp add: pow2_powi power_int_minus field_simps)

lemma pow2_cancel: "pow2 k * pow2 (- k) = 1"
  using pow2_pos [of k] by (simp add: pow2_neg)

text \<open>The mantissa is within one half of the scaled quotient.\<close>

lemma mantissa_bound:
  assumes "0 < b"
  shows "\<bar>of_int (mantissa a b s) - of_nat a / of_nat b * pow2 s\<bar> \<le> 1 / 2"
proof (cases "0 \<le> s")
  case True
  have p: "pow2 s = 2 ^ nat s" using True by (simp add: pow2_def)
  have eq: "(of_int (int a * 2 ^ nat s) / of_int (int b) :: rat) = of_nat a / of_nat b * pow2 s"
    by (simp add: p)
  have m: "mantissa a b s = round_half_even (int a * 2 ^ nat s) (int b)"
    using True by (simp add: mantissa_def)
  have "0 < int b" using assms by simp
  from round_half_even_bound [OF this, of "int a * 2 ^ nat s"]
  show ?thesis by (simp only: eq m)
next
  case False
  have p: "pow2 s = 1 / 2 ^ nat (- s)" using False by (simp add: pow2_def)
  have eq: "(of_int (int a) / of_int (int b * 2 ^ nat (- s)) :: rat) = of_nat a / of_nat b * pow2 s"
    by (simp add: p)
  have m: "mantissa a b s = round_half_even (int a) (int b * 2 ^ nat (- s))"
    using False by (simp add: mantissa_def)
  have "0 < int b * 2 ^ nat (- s)" using assms by simp
  from round_half_even_bound [OF this, of "int a"]
  show ?thesis by (simp only: eq m)
qed

text \<open>No integer is nearer to the quotient, and a quotient half way is rounded to even.\<close>

lemma round_half_even_nearest:
  assumes "0 < den"
  shows "\<bar>of_int (round_half_even num den) - (of_int num / of_int den :: rat)\<bar>
           \<le> \<bar>of_int k - of_int num / of_int den\<bar>"
proof (cases "k = round_half_even num den")
  case True
  then show ?thesis by simp
next
  case False
  define m where "m = round_half_even num den"
  define t :: rat where "t = of_int num / of_int den"
  have b: "\<bar>of_int m - t\<bar> \<le> 1 / 2"
    unfolding m_def t_def by (rule round_half_even_bound [OF assms])
  have "1 \<le> \<bar>k - m\<bar>" using False by (simp add: m_def)
  then have "(1::rat) \<le> of_int \<bar>k - m\<bar>" by (simp only: of_int_1_le_iff)
  then have "(1::rat) \<le> \<bar>of_int k - of_int m\<bar>" by simp
  also have "\<dots> \<le> \<bar>of_int k - t\<bar> + \<bar>of_int m - t\<bar>" by linarith
  finally have "1 / 2 \<le> \<bar>of_int k - t\<bar>" using b by linarith
  then show ?thesis using b unfolding m_def t_def by linarith
qed

lemma round_half_even_tie:
  assumes "0 < den"
    and "\<bar>of_int (round_half_even num den) - (of_int num / of_int den :: rat)\<bar> = 1 / 2"
  shows "even (round_half_even num den)"
proof -
  define n r where "n = num div den" and "r = num mod den"
  have num: "num = n * den + r" by (simp add: n_def r_def)
  have r: "0 \<le> r" "r < den" using assms(1) by (simp_all add: r_def)
  have q: "(of_int num / of_int den :: rat) = of_int n + of_int r / of_int den"
    using assms(1) by (simp add: num field_simps)
  have dpos: "(0::rat) < of_int den" using assms(1) by simp
  have h1: "2 * r < den \<Longrightarrow> (of_int r / of_int den :: rat) < 1 / 2"
  proof -
    assume "2 * r < den"
    then have "(of_int (2 * r) :: rat) < of_int den" by (simp only: of_int_less_iff)
    then show ?thesis using dpos by (simp add: field_simps)
  qed
  have h2: "den < 2 * r \<Longrightarrow> 1 / 2 < (of_int r / of_int den :: rat)"
  proof -
    assume "den < 2 * r"
    then have "(of_int den :: rat) < of_int (2 * r)" by (simp only: of_int_less_iff)
    then show ?thesis using dpos by (simp add: field_simps)
  qed
  have r0: "0 \<le> (of_int r / of_int den :: rat)" using r dpos by simp
  have r1: "(of_int r / of_int den :: rat) < 1" using r dpos by simp
  show ?thesis
  proof (cases "2 * r < den")
    case True
    then have "round_half_even num den = n"
      by (simp add: round_half_even_def n_def r_def Let_def)
    with assms(2) h1 [OF True] r0 show ?thesis by (simp add: q abs_if split: if_splits)
  next
    case False
    show ?thesis
    proof (cases "den < 2 * r")
      case True
      then have "round_half_even num den = n + 1"
        using False by (simp add: round_half_even_def n_def r_def Let_def)
      with assms(2) h2 [OF True] r1 show ?thesis by (simp add: q abs_if split: if_splits)
    next
      case f: False
      then show ?thesis
        using False by (simp add: round_half_even_def n_def r_def Let_def)
    qed
  qed
qed

lemma mantissa_round:
  assumes "0 < b"
  shows "\<exists>num den. 0 < den \<and> mantissa a b s = round_half_even num den
           \<and> (of_int num / of_int den :: rat) = of_nat a / of_nat b * pow2 s"
proof (cases "0 \<le> s")
  case True
  have p: "pow2 s = 2 ^ nat s" using True by (simp add: pow2_def)
  have "(of_int (int a * 2 ^ nat s) / of_int (int b) :: rat) = of_nat a / of_nat b * pow2 s"
    by (simp add: p)
  moreover have "mantissa a b s = round_half_even (int a * 2 ^ nat s) (int b)"
    using True by (simp add: mantissa_def)
  moreover have "0 < int b" using assms by simp
  ultimately show ?thesis by blast
next
  case False
  have p: "pow2 s = 1 / 2 ^ nat (- s)" using False by (simp add: pow2_def)
  have "(of_int (int a) / of_int (int b * 2 ^ nat (- s)) :: rat) = of_nat a / of_nat b * pow2 s"
    by (simp add: p)
  moreover have "mantissa a b s = round_half_even (int a) (int b * 2 ^ nat (- s))"
    using False by (simp add: mantissa_def)
  moreover have "0 < int b * 2 ^ nat (- s)" using assms by simp
  ultimately show ?thesis by blast
qed

lemma mantissa_nearest:
  assumes "0 < b"
  shows "\<bar>of_int (mantissa a b s) - of_nat a / of_nat b * pow2 s\<bar>
           \<le> \<bar>of_int k - of_nat a / of_nat b * pow2 s\<bar>"
proof -
  from mantissa_round [OF assms, of a s] obtain num den where
    d: "0 < den" "mantissa a b s = round_half_even num den"
       "(of_int num / of_int den :: rat) = of_nat a / of_nat b * pow2 s"
    by blast
  from round_half_even_nearest [OF d(1), of num k] show ?thesis
    by (simp only: d(2) [symmetric] d(3))
qed

lemma mantissa_tie:
  assumes "0 < b"
    and "\<bar>of_int (mantissa a b s) - of_nat a / of_nat b * pow2 s\<bar> = 1 / 2"
  shows "even (mantissa a b s)"
proof -
  from mantissa_round [OF assms(1), of a s] obtain num den where
    d: "0 < den" "mantissa a b s = round_half_even num den"
       "(of_int num / of_int den :: rat) = of_nat a / of_nat b * pow2 s"
    by blast
  have "\<bar>of_int (round_half_even num den) - (of_int num / of_int den :: rat)\<bar> = 1 / 2"
    using assms(2) by (simp only: d(2) [symmetric] d(3))
  from round_half_even_tie [OF d(1) this] show ?thesis by (simp only: d(2))
qed

lemma pow2_le_imp: "pow2 i \<le> pow2 j \<Longrightarrow> i \<le> j"
proof (rule ccontr)
  assume a: "pow2 i \<le> pow2 j" and "\<not> i \<le> j"
  then have "j + 1 \<le> i" by simp
  then have "pow2 (j + 1) \<le> pow2 i" by (rule pow2_mono)
  then have "pow2 j * 2 \<le> pow2 j" using a by (simp add: pow2_add pow2_def [of 1])
  then show False using pow2_pos [of j] by simp
qed

lemma pow2_mult_eq: "i + j = k \<Longrightarrow> pow2 i * pow2 j = pow2 k"
  by (auto simp: pow2_add)

lemma pow2_Suc: "pow2 (k + 1) = 2 * pow2 k"
  by (simp add: pow2_add pow2_def [of 1])

lemma pow2_53: "pow2 53 = 2 ^ 53" and pow2_52: "pow2 52 = 2 ^ 52"
  by (simp_all add: pow2_def)

text \<open>
  The setting of \<open>int_true_divide\<close> for a positive quotient \<open>q\<close>: the exponent
  \<open>e'\<close>, the spacing \<open>u\<close> of the floats around \<open>q\<close>, the scaled quotient \<open>t\<close>
  and the mantissa \<open>m\<close>.
\<close>

lemma rounded_facts:
  assumes "0 < a" and "0 < b"
    and e': "e' = max (quotient_exponent a b) (- 1022)"
    and m: "m = mantissa a b (52 - e')"
    and q: "q = of_nat a / of_nat b"
    and t: "t = q * pow2 (52 - e')"
    and u: "u = pow2 (e' - 52)"
  shows "0 < u" and "q = t * u" and "\<bar>of_int m - t\<bar> \<le> 1 / 2"
    and "0 < t" and "t < 2 ^ 53" and "0 \<le> m" and "m \<le> 2 ^ 53"
    and "- 1022 \<le> e'"
    and "pow2 (quotient_exponent a b) \<le> q" and "q < pow2 (quotient_exponent a b + 1)"
    and "- 1022 < e' \<Longrightarrow> quotient_exponent a b = e'"
    and "quotient_exponent a b = e' \<Longrightarrow> 2 ^ 52 \<le> t \<and> 2 ^ 52 \<le> m \<and> pow2 e' \<le> of_int m * u"
proof -
  define e where "e = quotient_exponent a b"
  have bpos: "(0::rat) < of_nat b" using assms(2) by simp
  have qpos: "0 < q" using assms(1,2) by (simp add: q)
  note eb = quotient_exponent_bounds [OF assms(1,2), folded e_def]
  show qlo: "pow2 (quotient_exponent a b) \<le> q" and qhi: "q < pow2 (quotient_exponent a b + 1)"
    using eb bpos by (simp_all add: q e_def field_simps)
  show upos: "0 < u" by (simp add: u pow2_pos)
  have "pow2 (52 - e') * pow2 (e' - 52) = pow2 0"
    by (rule pow2_mult_eq) simp
  then have "pow2 (52 - e') * pow2 (e' - 52) = 1" by (simp add: pow2_0)
  then show qtu: "q = t * u" by (simp add: t u)
  show mb: "\<bar>of_int m - t\<bar> \<le> 1 / 2"
    unfolding m t q by (rule mantissa_bound [OF assms(2)])
  show tpos: "0 < t" using qpos pow2_pos [of "52 - e'"] by (simp add: t)
  show e1: "- 1022 \<le> e'" by (simp add: e')
  have ee: "e \<le> e'" by (simp add: e' e_def)
  have "t < pow2 (e + 1) * pow2 (52 - e')"
    using qhi pow2_pos [of "52 - e'"] by (simp add: t e_def)
  also have "\<dots> = pow2 (e + 53 - e')" by (rule pow2_mult_eq) simp
  also have "\<dots> \<le> pow2 53" using ee by (intro pow2_mono) simp
  finally show t53: "t < 2 ^ 53" by (simp add: pow2_53)
  have "- 1 < (of_int m :: rat)" using mb tpos by linarith
  then have "(of_int (- 1) :: rat) < of_int m" by simp
  then have "- 1 < m" by (simp only: of_int_less_iff)
  then show m0: "0 \<le> m" by simp
  have "(of_int m :: rat) < 2 ^ 53 + 1" using mb t53 by linarith
  then have "(of_int m :: rat) < of_int (2 ^ 53 + 1)" by simp
  then have "m < 2 ^ 53 + 1" by (simp only: of_int_less_iff)
  then show "m \<le> 2 ^ 53" by simp
  show "quotient_exponent a b = e'" if "- 1022 < e'"
    using that by (simp add: e' max_def split: if_splits)
  show "2 ^ 52 \<le> t \<and> 2 ^ 52 \<le> m \<and> pow2 e' \<le> of_int m * u" if h: "quotient_exponent a b = e'"
  proof -
    have "pow2 e' * pow2 (52 - e') \<le> t"
      using qlo pow2_pos [of "52 - e'"] by (simp add: t h)
    moreover have "pow2 e' * pow2 (52 - e') = pow2 52" by (rule pow2_mult_eq) simp
    ultimately have t52: "2 ^ 52 \<le> t" by (simp add: pow2_52)
    have "(2 ^ 52 - 1 :: rat) < of_int m" using mb t52 by linarith
    then have "(of_int (2 ^ 52 - 1) :: rat) < of_int m" by simp
    then have "2 ^ 52 - 1 < m" by (simp only: of_int_less_iff)
    then have m52: "2 ^ 52 \<le> m" by simp
    then have "(of_int (2 ^ 52) :: rat) \<le> of_int m" by (simp only: of_int_le_iff)
    then have "(2 ^ 52 :: rat) \<le> of_int m" by simp
    then have "2 ^ 52 * u \<le> of_int m * u" using upos by simp
    moreover have "pow2 52 * pow2 (e' - 52) = pow2 e'" by (rule pow2_mult_eq) simp
    then have "2 ^ 52 * u = pow2 e'" by (simp add: u pow2_52)
    ultimately show ?thesis using t52 m52 by simp
  qed
qed

lemma scaled_distance:
  assumes "0 < u" and "q = t * u"
  shows "\<bar>of_int k * u - q\<bar> = \<bar>of_int k - t\<bar> * (u::rat)"
proof -
  have "of_int k * u - q = (of_int k - t) * u" by (simp add: assms(2) algebra_simps)
  then show ?thesis using assms(1) by (simp add: abs_mult)
qed

text \<open>Overflow: the rounded quotient reaches \<open>2 ^ 1024\<close> exactly from the middle
  between the largest float and \<open>2 ^ 1024\<close> on.\<close>

lemma rounded_overflow_iff:
  assumes "0 < a" and "0 < b"
    and e': "e' = max (quotient_exponent a b) (- 1022)"
    and m: "m = mantissa a b (52 - e')"
    and q: "q = of_nat a / of_nat b"
    and x: "x = of_int m * pow2 (e' - 52)"
  shows "pow2 1024 \<le> x \<longleftrightarrow> pow2 1024 - pow2 970 \<le> q"
proof -
  define t where "t = q * pow2 (52 - e')"
  define u where "u = pow2 (e' - 52)"
  note f = rounded_facts [OF assms(1,2) e' m q t_def u_def]
  have xu: "x = of_int m * u" by (simp add: x u_def)
  have d: "\<bar>x - q\<bar> = \<bar>of_int m - t\<bar> * u"
    unfolding xu by (rule scaled_distance [OF f(1,2)])
  have h970: "pow2 971 = 2 * pow2 970" using pow2_Suc [of 970] by simp
  have h1024: "pow2 1024 = 2 * pow2 1023" using pow2_Suc [of 1023] by simp
  show ?thesis
  proof
    assume ov: "pow2 1024 \<le> x"
    show "pow2 1024 - pow2 970 \<le> q"
    proof (cases "e' \<le> 1023")
      case True
      then have "u \<le> pow2 971" unfolding u_def by (intro pow2_mono) simp
      moreover have "\<bar>of_int m - t\<bar> * u \<le> 1 / 2 * u"
        using f(3) f(1) by (simp only: mult_le_cancel_right_pos)
      ultimately have "\<bar>x - q\<bar> \<le> pow2 970" using d h970 by simp
      then show ?thesis using ov by linarith
    next
      case False
      then have "quotient_exponent a b = e'" using f(11) by simp
      then have "pow2 e' \<le> q" using f(9) by simp
      moreover have "pow2 1024 \<le> pow2 e'" using False by (intro pow2_mono) simp
      ultimately show ?thesis using pow2_pos [of 970] by linarith
    qed
  next
    assume big: "pow2 1024 - pow2 970 \<le> q"
    have "pow2 970 \<le> pow2 1023" by (rule pow2_mono) simp
    then have "pow2 1023 \<le> q" using big h1024 by linarith
    then have "pow2 1023 < pow2 (quotient_exponent a b + 1)" using f(10) by simp
    then have "1023 < quotient_exponent a b + 1" by (rule pow2_less_imp)
    then have e1023: "1023 \<le> e'" and ee: "quotient_exponent a b = e'"
      by (simp_all add: e')
    note g = f(12) [OF ee]
    show "pow2 1024 \<le> x"
    proof (cases "e' = 1023")
      case False
      then have "pow2 1024 \<le> pow2 e'" using e1023 by (intro pow2_mono) simp
      then show ?thesis using g xu by simp
    next
      case True
      have p: "pow2 (52 - e') = pow2 (- 971)" by (simp add: True)
      have "pow2 1024 * pow2 (- 971) = pow2 53" by (rule pow2_mult_eq) simp
      moreover have "pow2 970 * pow2 (- 971) = pow2 (- 1)" by (rule pow2_mult_eq) simp
      moreover have "pow2 (- 1) = 1 / 2" by (simp add: pow2_def)
      ultimately have "(pow2 1024 - pow2 970) * pow2 (- 971) = 2 ^ 53 - 1 / 2"
        by (simp add: pow2_53 algebra_simps)
      moreover have "(pow2 1024 - pow2 970) * pow2 (- 971) \<le> q * pow2 (- 971)"
        using big pow2_pos [of "- 971"] by (simp only: mult_le_cancel_right_pos)
      ultimately have tl: "2 ^ 53 - 1 / 2 \<le> t" by (simp add: t_def p)
      have "(2 ^ 53 - 2 :: rat) < of_int m" using f(3) tl by linarith
      then have "(of_int (2 ^ 53 - 2) :: rat) < of_int m" by simp
      then have "2 ^ 53 - 2 < m" by (simp only: of_int_less_iff)
      then have m1: "2 ^ 53 - 1 \<le> m" by simp
      have "m \<noteq> 2 ^ 53 - 1"
      proof
        assume mm: "m = 2 ^ 53 - 1"
        then have "(of_int m :: rat) = 2 ^ 53 - 1" by simp
        then have "\<bar>of_int m - t\<bar> = 1 / 2" using f(3) tl by linarith
        then have "even m"
          using mantissa_tie [OF assms(2), of a "52 - e'"] by (simp add: m t_def q)
        then show False by (simp add: mm)
      qed
      then have "2 ^ 53 \<le> m" using m1 by simp
      then have "(of_int (2 ^ 53) :: rat) \<le> of_int m" by (simp only: of_int_le_iff)
      then have "(2 ^ 53 :: rat) \<le> of_int m" by simp
      then have "2 ^ 53 * u \<le> of_int m * u" using f(1) by simp
      moreover have "pow2 53 * pow2 (e' - 52) = pow2 1024"
        by (rule pow2_mult_eq) (simp add: True)
      ultimately show ?thesis by (simp add: xu u_def pow2_53)
    qed
  qed
qed

text \<open>Below \<open>2 ^ 1024\<close> the rounded quotient is a binary64 number.\<close>

lemma rounded_is_binary64:
  assumes "0 < a" and "0 < b"
    and e': "e' = max (quotient_exponent a b) (- 1022)"
    and m: "m = mantissa a b (52 - e')"
    and q: "q = (of_nat a / of_nat b :: rat)"
    and x: "x = of_int m * pow2 (e' - 52)"
    and fin: "x < pow2 1024"
  shows "is_binary64 x"
proof -
  define t where "t = q * pow2 (52 - e')"
  define u where "u = pow2 (e' - 52)"
  note f = rounded_facts [OF assms(1,2) e' m q t_def u_def]
  have xu: "x = of_int m * u" by (simp add: x u_def)
  have e1023: "e' \<le> 1023"
  proof (rule ccontr)
    assume "\<not> e' \<le> 1023"
    then have big: "1024 \<le> e'" by simp
    then have "quotient_exponent a b = e'" using f(11) by simp
    from f(12) [OF this] have "pow2 e' \<le> x" by (simp add: xu)
    moreover have "pow2 1024 \<le> pow2 e'" using big by (rule pow2_mono)
    ultimately show False using fin by simp
  qed
  show ?thesis
  proof (cases "m = 2 ^ 53")
    case False
    then have "\<bar>m\<bar> < 2 ^ 53" using f(6,7) by simp
    moreover have "- 1074 \<le> e' - 52" "e' - 52 \<le> 971" using f(8) e1023 by simp_all
    ultimately show ?thesis unfolding is_binary64_def using x by blast
  next
    case True
    have "pow2 53 * pow2 (e' - 52) = pow2 (e' + 1)" by (rule pow2_mult_eq) simp
    then have xe: "x = pow2 (e' + 1)" by (simp add: x True pow2_53)
    then have "pow2 (e' + 1) < pow2 1024" using fin by simp
    then have "e' + 1 < 1024" by (rule pow2_less_imp)
    then have r: "- 1074 \<le> e' - 51" "e' - 51 \<le> 971" using f(8) by simp_all
    have "pow2 52 * pow2 (e' - 51) = pow2 (e' + 1)" by (rule pow2_mult_eq) simp
    then have "x = of_int (2 ^ 52) * pow2 (e' - 51)" by (simp add: xe pow2_52)
    moreover have "\<bar>2 ^ 52 :: int\<bar> < 2 ^ 53" by simp
    ultimately show ?thesis unfolding is_binary64_def using r by blast
  qed
qed

text \<open>
  No binary64 number is nearer to the quotient than the rounded quotient, and one that is
  as near is its neighbour on the other side of the quotient, the rounded quotient being
  the one whose mantissa is even: an even multiple of the gap between the two.
\<close>

lemma rounded_nearest:
  assumes "0 < a" and "0 < b"
    and e': "e' = max (quotient_exponent a b) (- 1022)"
    and m: "m = mantissa a b (52 - e')"
    and q: "q = of_nat a / of_nat b"
    and x: "x = of_int m * pow2 (e' - 52)"
    and y: "is_binary64 y"
  shows "\<bar>x - q\<bar> \<le> \<bar>y - q\<bar>"
    and "y \<noteq> x \<Longrightarrow> \<bar>y - q\<bar> = \<bar>x - q\<bar> \<Longrightarrow> \<exists>j. x = of_int (2 * j) * (y - x)"
proof -
  define t where "t = q * pow2 (52 - e')"
  define u where "u = pow2 (e' - 52)"
  note f = rounded_facts [OF assms(1,2) e' m q t_def u_def]
  have xu: "x = of_int m * u" by (simp add: x u_def)
  have dx: "\<bar>x - q\<bar> = \<bar>of_int m - t\<bar> * u"
    unfolding xu by (rule scaled_distance [OF f(1,2)])
  from y obtain n g where
    yn: "y = of_int n * pow2 g" and n: "\<bar>n\<bar> < 2 ^ 53" and g: "- 1074 \<le> g" "g \<le> 971"
    unfolding is_binary64_def by blast
  have near: "\<And>k. \<bar>of_int m - t\<bar> \<le> \<bar>of_int k - t\<bar>"
    unfolding m t_def q by (rule mantissa_nearest [OF assms(2)])
  have both: "\<bar>x - q\<bar> \<le> \<bar>y - q\<bar>
      \<and> (y \<noteq> x \<longrightarrow> \<bar>y - q\<bar> = \<bar>x - q\<bar> \<longrightarrow> (\<exists>j. x = of_int (2 * j) * (y - x)))"
  proof (cases "e' - 52 \<le> g")
    case True
    define k where "k = n * 2 ^ nat (g - (e' - 52))"
    have "pow2 (g - (e' - 52)) * pow2 (e' - 52) = pow2 g" by (rule pow2_mult_eq) simp
    moreover have "pow2 (g - (e' - 52)) = 2 ^ nat (g - (e' - 52))"
      using True by (simp add: pow2_def)
    ultimately have "pow2 g = 2 ^ nat (g - (e' - 52)) * u" by (simp add: u_def)
    then have yk: "y = of_int k * u" by (simp add: yn k_def)
    have dy: "\<bar>y - q\<bar> = \<bar>of_int k - t\<bar> * u"
      unfolding yk by (rule scaled_distance [OF f(1,2)])
    have le: "\<bar>x - q\<bar> \<le> \<bar>y - q\<bar>"
      unfolding dx dy using near [of k] f(1) by (simp only: mult_le_cancel_right_pos)
    have tie: "\<exists>j. x = of_int (2 * j) * (y - x)" if ne: "y \<noteq> x" and eq: "\<bar>y - q\<bar> = \<bar>x - q\<bar>"
    proof -
      have km: "k \<noteq> m" using ne by (auto simp: yk xu)
      have same: "\<bar>of_int k - t\<bar> = \<bar>of_int m - t\<bar>"
        using eq f(1) unfolding dx dy by simp
      have "\<bar>(of_int k :: rat) - of_int m\<bar> \<le> \<bar>of_int k - t\<bar> + \<bar>of_int m - t\<bar>" by linarith
      then have "\<bar>(of_int k :: rat) - of_int m\<bar> \<le> 1" using same f(3) by linarith
      then have "(of_int \<bar>k - m\<bar> :: rat) \<le> of_int 1" by simp
      then have "\<bar>k - m\<bar> \<le> 1" by (simp only: of_int_le_iff)
      then have one: "\<bar>k - m\<bar> = 1" using km by simp
      then have "(of_int \<bar>k - m\<bar> :: rat) = 1" by simp
      then have "\<bar>(of_int k :: rat) - of_int m\<bar> = 1" by simp
      then have "1 \<le> \<bar>of_int k - t\<bar> + \<bar>of_int m - t\<bar>" by linarith
      then have "\<bar>of_int m - t\<bar> = 1 / 2" using same f(3) by linarith
      then have "even m"
        using mantissa_tie [OF assms(2), of a "52 - e'"] by (simp add: m t_def q)
      then obtain j where j: "m = 2 * j" by (auto elim: evenE)
      have "k - m = 1 \<or> k - m = - 1" using one by auto
      then have sq: "(k - m) * (k - m) = 1" by auto
      have "y - x = of_int (k - m) * u" by (simp add: yk xu algebra_simps)
      then have "of_int (2 * (j * (k - m))) * (y - x)
          = of_int (2 * j) * (of_int ((k - m) * (k - m)) * u)"
        by simp
      also have "\<dots> = of_int (2 * j) * u" by (simp only: sq of_int_1 mult_1)
      also have "\<dots> = x" by (simp only: xu j)
      finally have "x = of_int (2 * (j * (k - m))) * (y - x)" by simp
      then show ?thesis by (rule exI [of _ "j * (k - m)"])
    qed
    show ?thesis using le tie by blast
  next
    case False
    then have gs: "g \<le> e' - 53" by simp
    then have "- 1022 < e'" using g(1) by simp
    then have ee: "quotient_exponent a b = e'" by (rule f(11))
    note h = f(12) [OF ee]
    have "(of_int \<bar>n\<bar> :: rat) < of_int (2 ^ 53)" using n by (simp only: of_int_less_iff)
    then have "\<bar>(of_int n :: rat)\<bar> < 2 ^ 53" by simp
    then have "\<bar>y\<bar> < 2 ^ 53 * pow2 g"
      using pow2_pos [of g] by (simp add: yn abs_mult)
    also have "\<dots> \<le> 2 ^ 53 * pow2 (e' - 53)"
      using pow2_mono [OF gs] by simp
    also have "\<dots> = pow2 e'"
      using pow2_mult_eq [of 53 "e' - 53" e'] by (simp add: pow2_53)
    finally have ylt: "\<bar>y\<bar> < pow2 e'" .
    have qe: "pow2 e' \<le> q" using f(9) ee by simp
    have "pow2 52 * pow2 (e' - 52) = pow2 e'" by (rule pow2_mult_eq) simp
    then have pe: "of_int (2 ^ 52) * u = pow2 e'" by (simp add: u_def pow2_52)
    have "\<bar>of_int (2 ^ 52) * u - q\<bar> = \<bar>of_int (2 ^ 52) - t\<bar> * u"
      by (rule scaled_distance [OF f(1,2)])
    moreover have "\<bar>of_int m - t\<bar> * u \<le> \<bar>of_int (2 ^ 52) - t\<bar> * u"
      using near [of "2 ^ 52"] f(1) by (simp only: mult_le_cancel_right_pos)
    ultimately have "\<bar>x - q\<bar> \<le> \<bar>pow2 e' - q\<bar>" by (simp only: dx pe)
    then have "\<bar>x - q\<bar> < \<bar>y - q\<bar>" using ylt qe by linarith
    then show ?thesis by simp
  qed
  from both show "\<bar>x - q\<bar> \<le> \<bar>y - q\<bar>" by blast
  from both show "y \<noteq> x \<Longrightarrow> \<bar>y - q\<bar> = \<bar>x - q\<bar> \<Longrightarrow> \<exists>j. x = of_int (2 * j) * (y - x)"
    by blast
qed

lemma is_binary64_0: "is_binary64 0"
  unfolding is_binary64_def by (rule exI [of _ 0], rule exI [of _ 0]) simp

lemma overflow_bound_pos: "0 < pow2 1024 - pow2 970"
proof -
  have "pow2 970 \<le> pow2 1023" by (rule pow2_mono) simp
  moreover have "pow2 1024 = 2 * pow2 1023" using pow2_Suc [of 1023] by simp
  ultimately show ?thesis using pow2_pos [of 1023] by linarith
qed

text \<open>
  True division is correctly rounded: \<open>OverflowError\<close> from the middle between the
  largest float and \<open>2 ^ 1024\<close> on, and below it the nearest binary64 number, the one
  with the even mantissa of two that are equally near.
\<close>

lemma int_true_divide_correct:
  assumes "0 < b" and q: "q = (of_nat a / of_nat b :: rat)"
  shows "(pow2 1024 - pow2 970 \<le> q \<longrightarrow> int_true_divide a b = Inl OverflowError)
       \<and> (q < pow2 1024 - pow2 970 \<longrightarrow>
            (\<exists>x. int_true_divide a b = Inr x \<and> is_binary64 x
                \<and> (\<forall>y. is_binary64 y \<longrightarrow> \<bar>x - q\<bar> \<le> \<bar>y - q\<bar>)
                \<and> (\<forall>y. is_binary64 y \<and> y \<noteq> x \<and> \<bar>y - q\<bar> = \<bar>x - q\<bar>
                       \<longrightarrow> (\<exists>j. x = of_int (2 * j) * (y - x)))))"
proof (cases "a = 0")
  case True
  then have "q = 0" by (simp add: q)
  moreover have "int_true_divide a b = Inr 0"
    using assms(1) True by (simp add: int_true_divide_def)
  ultimately show ?thesis
    using overflow_bound_pos is_binary64_0 by auto
next
  case False
  then have a: "0 < a" by simp
  define e' where "e' = max (quotient_exponent a b) (- 1022)"
  define m where "m = mantissa a b (52 - e')"
  define x where "x = of_int m * pow2 (e' - 52)"
  have d: "int_true_divide a b = (if pow2 1024 \<le> x then Inl OverflowError else Inr x)"
    using a assms(1) by (simp add: int_true_divide_def Let_def e'_def m_def x_def)
  note ov = rounded_overflow_iff [OF a assms(1) e'_def m_def q x_def]
  show ?thesis
  proof (intro conjI impI)
    assume "pow2 1024 - pow2 970 \<le> q"
    then show "int_true_divide a b = Inl OverflowError" using d ov by simp
  next
    assume "q < pow2 1024 - pow2 970"
    then have fin: "x < pow2 1024" using ov by simp
    then have r: "int_true_divide a b = Inr x" using d by simp
    have b64: "is_binary64 x"
      by (rule rounded_is_binary64 [OF a assms(1) e'_def m_def q x_def fin])
    have near: "\<forall>y. is_binary64 y \<longrightarrow> \<bar>x - q\<bar> \<le> \<bar>y - q\<bar>"
      using rounded_nearest(1) [OF a assms(1) e'_def m_def q x_def] by blast
    have tie: "\<forall>y. is_binary64 y \<and> y \<noteq> x \<and> \<bar>y - q\<bar> = \<bar>x - q\<bar>
                       \<longrightarrow> (\<exists>j. x = of_int (2 * j) * (y - x))"
      using rounded_nearest(2) [OF a assms(1) e'_def m_def q x_def] by blast
    show "\<exists>x. int_true_divide a b = Inr x \<and> is_binary64 x
                \<and> (\<forall>y. is_binary64 y \<longrightarrow> \<bar>x - q\<bar> \<le> \<bar>y - q\<bar>)
                \<and> (\<forall>y. is_binary64 y \<and> y \<noteq> x \<and> \<bar>y - q\<bar> = \<bar>x - q\<bar>
                       \<longrightarrow> (\<exists>j. x = of_int (2 * j) * (y - x)))"
      using r b64 near tie by blast
  qed
qed

text \<open>
  C6, as amended. For every listing, \<open>average_rating\<close> is the integer 0 when the listing
  has no reviews. When it has reviews, \<open>average_rating\<close> is a float, the binary64
  number nearest to the arithmetic mean of the ratings: no binary64 number is nearer to
  the mean, and of two that are equally near it is the one with the even mantissa (it is
  an even multiple of the distance between the two). It is the mean exactly when the mean
  is a binary64 number. A mean from the middle between the largest float and
  \<open>2 ^ 1024\<close> on raises \<open>OverflowError\<close>; no ratings that the integer column holds
  have such a mean.
\<close>

theorem average_rating_is_nearest_float:
  "(listing_reviews db self = [] \<longrightarrow> Listing_average_rating db self = Inr (PyInt 0))
   \<and> (listing_reviews db self \<noteq> [] \<longrightarrow>
        (pow2 1024 - pow2 970 \<le> arithmetic_mean (map rating (listing_reviews db self)) \<longrightarrow>
           Listing_average_rating db self = Inl OverflowError)
        \<and> (arithmetic_mean (map rating (listing_reviews db self)) < pow2 1024 - pow2 970 \<longrightarrow>
            (\<exists>x. Listing_average_rating db self = Inr (PyFloat x) \<and> is_binary64 x
                \<and> (\<forall>y. is_binary64 y \<longrightarrow>
                       \<bar>x - arithmetic_mean (map rating (listing_reviews db self))\<bar>
                         \<le> \<bar>y - arithmetic_mean (map rating (listing_reviews db self))\<bar>)
                \<and> (\<forall>y. is_binary64 y \<and> y \<noteq> x
                         \<and> \<bar>y - arithmetic_mean (map rating (listing_reviews db self))\<bar>
                             = \<bar>x - arithmetic_mean (map rating (listing_reviews db self))\<bar>
                       \<longrightarrow> (\<exists>j. x = of_int (2 * j) * (y - x)))
                \<and> (x = arithmetic_mean (map rating (listing_reviews db self))
                     \<longleftrightarrow> is_binary64 (arithmetic_mean (map rating (listing_reviews db self)))))))"
proof (intro conjI impI)
  assume "listing_reviews db self = []"
  then show "Listing_average_rating db self = Inr (PyInt 0)"
    by (simp add: Listing_average_rating_def)
next
  assume ne: "listing_reviews db self \<noteq> []"
  define rs where "rs = listing_reviews db self"
  define q where "q = arithmetic_mean (map rating rs)"
  have b: "0 < length rs" using ne by (simp add: rs_def)
  have qd: "q = (of_nat (sum_list (map rating rs)) / of_nat (length rs) :: rat)"
    by (simp add: q_def arithmetic_mean_def)
  note c = int_true_divide_correct [OF b qd]
  have avg: "Listing_average_rating db self =
      (case int_true_divide (sum_list (map rating rs)) (length rs) of
         Inl e \<Rightarrow> Inl e | Inr x \<Rightarrow> Inr (PyFloat x))"
    using ne by (simp add: Listing_average_rating_def rs_def Let_def)
  {
    assume "pow2 1024 - pow2 970 \<le> arithmetic_mean (map rating (listing_reviews db self))"
    then show "Listing_average_rating db self = Inl OverflowError"
      using c avg by (simp add: q_def rs_def)
  next
    assume "arithmetic_mean (map rating (listing_reviews db self)) < pow2 1024 - pow2 970"
    then have "q < pow2 1024 - pow2 970" by (simp add: q_def rs_def)
    with c obtain x where x: "int_true_divide (sum_list (map rating rs)) (length rs) = Inr x"
        "is_binary64 x" "\<forall>y. is_binary64 y \<longrightarrow> \<bar>x - q\<bar> \<le> \<bar>y - q\<bar>"
        "\<forall>y. is_binary64 y \<and> y \<noteq> x \<and> \<bar>y - q\<bar> = \<bar>x - q\<bar>
              \<longrightarrow> (\<exists>j. x = of_int (2 * j) * (y - x))"
      by blast
    have "x = q \<longleftrightarrow> is_binary64 q"
    proof
      assume "x = q" then show "is_binary64 q" using x(2) by simp
    next
      assume "is_binary64 q"
      with x(3) have "\<bar>x - q\<bar> \<le> \<bar>q - q\<bar>" by blast
      then show "x = q" by simp
    qed
    then show "\<exists>x. Listing_average_rating db self = Inr (PyFloat x) \<and> is_binary64 x
                \<and> (\<forall>y. is_binary64 y \<longrightarrow>
                       \<bar>x - arithmetic_mean (map rating (listing_reviews db self))\<bar>
                         \<le> \<bar>y - arithmetic_mean (map rating (listing_reviews db self))\<bar>)
                \<and> (\<forall>y. is_binary64 y \<and> y \<noteq> x
                         \<and> \<bar>y - arithmetic_mean (map rating (listing_reviews db self))\<bar>
                             = \<bar>x - arithmetic_mean (map rating (listing_reviews db self))\<bar>
                       \<longrightarrow> (\<exists>j. x = of_int (2 * j) * (y - x)))
                \<and> (x = arithmetic_mean (map rating (listing_reviews db self))
                     \<longleftrightarrow> is_binary64 (arithmetic_mean (map rating (listing_reviews db self))))"
      using x avg unfolding q_def rs_def by (intro exI [of _ x]) simp
  }
qed

text \<open>
  The mean is not always met exactly: the ratings 1, 2 and 2 have the mean 5/3, and
  \<open>5 / 3\<close> in Python is the float \<open>7505999378950827 / 2 ^ 52\<close>, printed as
  \<open>1.6666666666666667\<close>.
\<close>

theorem average_rating_not_exact_counterexample:
  "map rating (listing_reviews (example_db_rated [1, 2, 2]) 1) = [1, 2, 2]
   \<and> arithmetic_mean [1, 2, 2] = 5 / 3
   \<and> Listing_average_rating (example_db_rated [1, 2, 2]) 1
       = Inr (PyFloat (7505999378950827 / 4503599627370496))
   \<and> (7505999378950827 / 4503599627370496 :: rat) \<noteq> 5 / 3"
  by (simp add: example_defs example_db_rated_def Listing_average_rating_def
      listing_reviews_def arithmetic_mean_def int_true_divide_def quotient_exponent_def
      mantissa_def round_half_even_def pow2_def bit_length_code Let_def)

text \<open>
  The example listing has no reviews and the average 0. Rated 1, 2 and 2 its average is
  the float above, a binary64 number, and the mean 5/3 is none.
\<close>

theorem average_rating_is_nearest_float_witness:
  "listing_reviews example_db 1 = []
   \<and> Listing_average_rating example_db 1 = Inr (PyInt 0)
   \<and> map rating (listing_reviews (example_db_rated [1, 2, 2]) 1) = [1, 2, 2]
   \<and> arithmetic_mean [1, 2, 2] = 5 / 3
   \<and> (5 / 3 :: rat) < pow2 1024 - pow2 970
   \<and> Listing_average_rating (example_db_rated [1, 2, 2]) 1
       = Inr (PyFloat (7505999378950827 / 4503599627370496))
   \<and> is_binary64 (7505999378950827 / 4503599627370496)
   \<and> \<not> is_binary64 (5 / 3)"
proof -
  have r: "listing_reviews example_db 1 = []"
    "map rating (listing_reviews (example_db_rated [1, 2, 2]) 1) = [1, 2, 2]"
    "listing_reviews (example_db_rated [1, 2, 2]) 1 \<noteq> []"
    by (simp_all add: example_defs example_db_rated_def listing_reviews_def)
  have m: "arithmetic_mean [1, 2, 2] = 5 / 3"
    by (simp add: arithmetic_mean_def)
  have lt: "(5 / 3 :: rat) < pow2 1024 - pow2 970"
    using overflow_bound_pos pow2_mono [of 3 1023] pow2_mono [of 970 1023] pow2_Suc [of 1023]
    by (simp add: pow2_def [of 3])
  have v: "Listing_average_rating (example_db_rated [1, 2, 2]) 1
       = Inr (PyFloat (7505999378950827 / 4503599627370496))"
    by (simp add: example_defs example_db_rated_def Listing_average_rating_def
      listing_reviews_def int_true_divide_def quotient_exponent_def
      mantissa_def round_half_even_def pow2_def bit_length_code Let_def)
  have ne: "(7505999378950827 / 4503599627370496 :: rat) \<noteq> 5 / 3" by simp
  have mean: "arithmetic_mean (map rating (listing_reviews (example_db_rated [1, 2, 2]) 1)) = 5 / 3"
    by (simp only: r(2) m)
  have z: "Listing_average_rating example_db 1 = Inr (PyInt 0)"
    using average_rating_is_nearest_float [of example_db 1] r(1) by blast
  have "\<exists>x. Listing_average_rating (example_db_rated [1, 2, 2]) 1 = Inr (PyFloat x)
          \<and> is_binary64 x \<and> (x = 5 / 3 \<longleftrightarrow> is_binary64 (5 / 3))"
    using average_rating_is_nearest_float [of "example_db_rated [1, 2, 2]" 1] r(3) lt
    unfolding mean by blast
  then obtain x where x: "Listing_average_rating (example_db_rated [1, 2, 2]) 1 = Inr (PyFloat x)"
      "is_binary64 x" "x = 5 / 3 \<longleftrightarrow> is_binary64 (5 / 3)"
    by blast
  have xv: "x = 7505999378950827 / 4503599627370496" using x(1) v by simp
  have b: "is_binary64 (7505999378950827 / 4503599627370496)" using x(2) xv by simp
  have n: "\<not> is_binary64 (5 / 3)" using x(3) xv ne by simp
  show ?thesis using r(1,2) m lt v z b n by blast
qed

end
